theory Spec2Isabelle
  imports Main
begin

section \<open>Strings\<close>

text \<open>
  A JavaScript string is modelled as a \<^typ>\<open>string\<close>. Text outside ASCII is carried as
  its UTF-8 bytes; \<open>is_space\<close> is the ASCII part of JavaScript's white space (tab, line
  feed, vertical tab, form feed, carriage return, space), and \<open>trim\<close> removes that
  part. The patterns of the image localizer are read with the whole of it, and with all
  four line terminators.
\<close>

definition is_space :: "char \<Rightarrow> bool" where
  "is_space c = (c = CHR '' '' \<or> c = CHR 0x09 \<or> c = CHR 0x0A \<or> c = CHR 0x0B
                 \<or> c = CHR 0x0C \<or> c = CHR 0x0D)"

definition trim :: "string \<Rightarrow> string" where
  "trim s = rev (dropWhile is_space (rev (dropWhile is_space s)))"

definition startsWith :: "string \<Rightarrow> string \<Rightarrow> bool" where
  "startsWith s p = (take (length p) s = p)"

fun str_includes :: "string \<Rightarrow> string \<Rightarrow> bool" where
  "str_includes [] sub = (sub = [])"
| "str_includes (c # cs) sub = (startsWith (c # cs) sub \<or> str_includes cs sub)"

text \<open>\<open>s.split(sep)\<close> for a one-character separator: never the empty list.\<close>

fun split_on :: "char \<Rightarrow> string \<Rightarrow> string list" where
  "split_on sep [] = [[]]"
| "split_on sep (c # cs) =
     (if c = sep then [] # split_on sep cs
      else (case split_on sep cs of
              [] \<Rightarrow> [[c]]
            | l # ls \<Rightarrow> (c # l) # ls))"

text \<open>\<open>parts.join(sep)\<close>.\<close>

fun join :: "string \<Rightarrow> string list \<Rightarrow> string" where
  "join sep [] = []"
| "join sep [x] = x"
| "join sep (x # y # ys) = x @ sep @ join sep (y # ys)"

section \<open>The document tree\<close>

text \<open>
  The part of the DOM the page scripts read: elements with their \<open>tagName\<close> (upper
  case, as HTML documents report it), attributes in order, and children; text and
  comment nodes.
\<close>

datatype node =
    Element string "(string \<times> string) list" "node list"
  | TextNode string
  | CommentNode string

fun tagName :: "node \<Rightarrow> string" where
  "tagName (Element t as cs) = t"
| "tagName _ = []"

fun childNodes :: "node \<Rightarrow> node list" where
  "childNodes (Element t as cs) = cs"
| "childNodes _ = []"

fun getAttribute :: "node \<Rightarrow> string \<Rightarrow> string option" where
  "getAttribute (Element t as cs) name = map_of as name"
| "getAttribute _ name = None"

fun textContent :: "node \<Rightarrow> string" where
  "textContent (Element t as cs) = concat (map textContent cs)"
| "textContent (TextNode s) = s"
| "textContent (CommentNode s) = []"

text \<open>
  The elements of a subtree in document order, each with its chain of ancestors inside
  the subtree, nearest first: what repeated \<open>parentElement\<close> visits.
\<close>

fun subtree_els :: "node list \<Rightarrow> node \<Rightarrow> (node list \<times> node) list" where
  "subtree_els anc (Element t as cs) =
     (anc, Element t as cs) # concat (map (subtree_els (Element t as cs # anc)) cs)"
| "subtree_els anc (TextNode s) = []"
| "subtree_els anc (CommentNode s) = []"

text \<open>\<open>root.querySelectorAll(sel)\<close>: the proper descendants of \<open>root\<close> that match.\<close>

definition querySelectorAll :: "(node \<Rightarrow> bool) \<Rightarrow> node \<Rightarrow> (node list \<times> node) list" where
  "querySelectorAll sel root = filter (\<lambda>(anc, n). sel n) (concat (map (subtree_els []) (childNodes root)))"

text \<open>\<open>document.querySelector(sel)\<close>: the first element of the document that matches.\<close>

definition doc_querySelector :: "(node \<Rightarrow> bool) \<Rightarrow> node \<Rightarrow> node option" where
  "doc_querySelector sel doc =
     (case filter (\<lambda>(anc, n). sel n) (subtree_els [] doc) of
        [] \<Rightarrow> None
      | (anc, n) # rest \<Rightarrow> Some n)"

fun split_ws :: "string \<Rightarrow> string list" where
  "split_ws [] = []"
| "split_ws (c # cs) =
     (if is_space c then split_ws cs
      else (case cs of
              [] \<Rightarrow> [[c]]
            | d # ds \<Rightarrow> if is_space d then [c] # split_ws cs
                       else (case split_ws cs of
                               [] \<Rightarrow> [[c]]
                             | w # ws \<Rightarrow> (c # w) # ws)))"

definition has_class :: "string \<Rightarrow> node \<Rightarrow> bool" where
  "has_class cl n =
     (case getAttribute n ''class'' of
        None \<Rightarrow> False
      | Some v \<Rightarrow> cl \<in> set (split_ws v))"

text \<open>The selectors of \<open>extractTableOfContents\<close>.\<close>

definition sel_toc_testid :: "node \<Rightarrow> bool" where
  "sel_toc_testid n = (getAttribute n ''data-testid'' = Some ''table-of-contents'')"

definition sel_ul_summary :: "node \<Rightarrow> bool" where
  "sel_ul_summary n = (tagName n = ''UL'' \<and> has_class ''summary'' n)"

definition sel_a_href :: "node \<Rightarrow> bool" where
  "sel_a_href n = (tagName n = ''A'' \<and> getAttribute n ''href'' \<noteq> None)"

section \<open>The table of contents\<close>

record toc_item =
  title :: string
  url :: string
  level :: nat

text \<open>
  \<open>getElementLevel\<close>: the loop starts at 1 and walks the parents of the link up to,
  not including, the container.
\<close>

fun level_loop :: "nat \<Rightarrow> node list \<Rightarrow> nat" where
  "level_loop lv [] = lv"
| "level_loop lv (p # ps) = level_loop (if tagName p = ''LI'' then lv + 1 else lv) ps"

definition getElementLevel :: "node list \<Rightarrow> nat" where
  "getElementLevel anc = max 1 (level_loop 1 anc)"

definition toc_entry :: "node list \<times> node \<Rightarrow> toc_item option" where
  "toc_entry = (\<lambda>(anc, link).
     let href = (case getAttribute link ''href'' of None \<Rightarrow> [] | Some h \<Rightarrow> h);
         ttl = trim (textContent link)
     in if href = [] \<or> href = ''#'' then None
        else if startsWith href ''http'' then None
        else
          let href1 = (if startsWith href ''./'' then drop 2 href else href);
              href2 = (if \<not> startsWith href1 ''/'' then ''/'' @ href1 else href1)
          in Some \<lparr> title = ttl, url = href2, level = getElementLevel anc \<rparr>)"

definition tocContainer :: "node \<Rightarrow> node option" where
  "tocContainer doc =
     (case doc_querySelector sel_toc_testid doc of
        Some c \<Rightarrow> Some c
      | None \<Rightarrow> doc_querySelector sel_ul_summary doc)"

definition extractTableOfContents :: "node \<Rightarrow> toc_item list" where
  "extractTableOfContents doc =
     (case tocContainer doc of
        None \<Rightarrow> []
      | Some c \<Rightarrow> List.map_filter toc_entry (querySelectorAll sel_a_href c))"

text \<open>A classic summary: list, list item, list, list item, link.\<close>

definition nested_summary :: node where
  "nested_summary =
     Element ''BODY'' []
       [Element ''UL'' [(''class'', ''summary'')]
          [Element ''LI'' []
             [Element ''A'' [(''href'', ''./intro.html'')] [TextNode '' Intro ''],
              Element ''UL'' []
                [Element ''LI'' []
                   [Element ''A'' [(''href'', ''guide/setup'')] [TextNode ''Setup'']]]]],
        Element ''MAIN'' [] [TextNode ''text'']]"

text \<open>A container whose links are not inside list items.\<close>

definition flat_toc :: node where
  "flat_toc =
     Element ''BODY'' []
       [Element ''NAV'' [(''data-testid'', ''table-of-contents'')]
          [Element ''DIV'' [] [Element ''A'' [(''href'', ''/start'')] [TextNode ''Start'']]]]"

section \<open>Paths\<close>

text \<open>
  Node's \<open>path\<close> module as the POSIX build computes it: \<open>basename\<close>, \<open>dirname\<close>,
  \<open>normalize\<close> and \<open>join\<close>.
\<close>

definition is_slash :: "char \<Rightarrow> bool" where
  "is_slash c = (c = CHR ''/'')"

definition basename :: "string \<Rightarrow> string" where
  "basename p = rev (takeWhile (\<lambda>c. \<not> is_slash c) (dropWhile is_slash (rev p)))"

definition dirname :: "string \<Rightarrow> string" where
  "dirname p =
     (case p of
        [] \<Rightarrow> ''.''
      | c # body \<Rightarrow>
          let hasRoot = is_slash c;
              seg = dropWhile (\<lambda>c. \<not> is_slash c) (dropWhile is_slash (rev body));
              e = length seg
          in if seg = [] then (if hasRoot then ''/'' else ''.'')
             else if hasRoot \<and> e = 1 then ''//''
             else take e p)"

fun norm_segs :: "bool \<Rightarrow> string list \<Rightarrow> string list \<Rightarrow> string list" where
  "norm_segs up acc [] = rev acc"
| "norm_segs up acc (s # ss) =
     (if s = [] \<or> s = ''.'' then norm_segs up acc ss
      else if s = ''..'' then
        (case acc of
           [] \<Rightarrow> norm_segs up (if up then [''..''] else []) ss
         | t # ts \<Rightarrow>
             if t = ''..'' then norm_segs up (if up then ''..'' # acc else acc) ss
             else norm_segs up ts ss)
      else norm_segs up (s # acc) ss)"

definition path_normalize :: "string \<Rightarrow> string" where
  "path_normalize p =
     (if p = [] then ''.''
      else
        let isAbsolute = is_slash (hd p);
            trailing = is_slash (last p);
            q = join ''/'' (norm_segs (\<not> isAbsolute) [] (split_on (CHR ''/'') p))
        in if q = [] then (if isAbsolute then ''/'' else if trailing then ''./'' else ''.'')
           else (if isAbsolute then ''/'' else []) @ q @ (if trailing then ''/'' else []))"

definition path_join :: "string list \<Rightarrow> string" where
  "path_join parts =
     (let used = filter (\<lambda>a. a \<noteq> []) parts
      in if used = [] then ''.'' else path_normalize (join ''/'' used))"

section \<open>Errors and credentials\<close>

text \<open>A thrown value: an \<open>Error\<close> with its message.\<close>

datatype error = Error string

fun message :: "error \<Rightarrow> string" where
  "message (Error m) = m"

record credentials =
  username :: string
  password :: string

text \<open>\<open>auth && auth.username && auth.password\<close>\<close>

definition has_creds :: "credentials option \<Rightarrow> bool" where
  "has_creds auth =
     (case auth of
        None \<Rightarrow> False
      | Some a \<Rightarrow> username a \<noteq> [] \<and> password a \<noteq> [])"

section \<open>Navigation with retries\<close>

definition lower_char :: "char \<Rightarrow> char" where
  "lower_char c =
     (let n = (of_char c :: nat) in if 65 \<le> n \<and> n \<le> 90 then char_of (n + 32) else c)"

definition is_letter :: "char \<Rightarrow> bool" where
  "is_letter c = (let n = (of_char (lower_char c) :: nat) in 97 \<le> n \<and> n \<le> 122)"

text \<open>The classification of \<open>downloadGitbook\<close>.\<close>

definition isProtocolOrAuthError :: "string \<Rightarrow> bool" where
  "isProtocolOrAuthError errMsg =
     (str_includes errMsg ''ERR_INVALID_AUTH_CREDENTIALS''
      \<or> str_includes errMsg ''net::ERR_INVALID_AUTH_CREDENTIALS''
      \<or> str_includes errMsg ''ERR_SSL_PROTOCOL_ERROR''
      \<or> str_includes errMsg ''ERR_CERT''
      \<or> str_includes errMsg ''net::ERR_CERT''
      \<or> str_includes errMsg ''ERR_CONNECTION_REFUSED''
      \<or> str_includes errMsg ''ERR_CONNECTION_RESET''
      \<or> str_includes errMsg ''401''
      \<or> str_includes (map lower_char errMsg) ''401 authorization required'')"

text \<open>The classification of \<open>processItem\<close>: no \<open>401\<close>.\<close>

definition isProtocolError :: "string \<Rightarrow> bool" where
  "isProtocolError errMsg =
     (str_includes errMsg ''ERR_INVALID_AUTH_CREDENTIALS''
      \<or> str_includes errMsg ''net::ERR_INVALID_AUTH_CREDENTIALS''
      \<or> str_includes errMsg ''ERR_SSL_PROTOCOL_ERROR''
      \<or> str_includes errMsg ''ERR_CERT''
      \<or> str_includes errMsg ''net::ERR_CERT''
      \<or> str_includes errMsg ''ERR_CONNECTION_REFUSED''
      \<or> str_includes errMsg ''ERR_CONNECTION_RESET'')"

text \<open>\<open>/^https?:\/\//i.test(url)\<close>\<close>

definition is_http_url :: "string \<Rightarrow> bool" where
  "is_http_url u =
     (startsWith (map lower_char u) ''http://'' \<or> startsWith (map lower_char u) ''https://'')"

text \<open>\<open>altUrl\<close>: the tests are case sensitive, the replacements are anchored.\<close>

definition altUrl :: "string \<Rightarrow> string" where
  "altUrl u =
     (if startsWith u ''https://'' then ''http://'' @ drop 8 u
      else if startsWith u ''http://'' then ''https://'' @ drop 7 u
      else u)"

definition unreserved :: "char \<Rightarrow> bool" where
  "unreserved c =
     (c \<in> set ''ABCDEFGHIJKLMNOPQRSTUVWXYZabcdefghijklmnopqrstuvwxyz0123456789-_.!~*()''
      \<or> c = CHR 0x27)"

definition hex_digit :: "nat \<Rightarrow> char" where
  "hex_digit n = ''0123456789ABCDEF'' ! (n mod 16)"

text \<open>\<open>encodeURIComponent\<close> on the UTF-8 bytes of a string.\<close>

definition encodeURIComponent :: "string \<Rightarrow> string" where
  "encodeURIComponent s =
     concat (map (\<lambda>c. if unreserved c then [c]
                       else [CHR ''%'', hex_digit ((of_char c :: nat) div 16),
                             hex_digit ((of_char c :: nat) mod 16)]) s)"

text \<open>\<open>url.match(/^([a-z]+:\/{2})/i)\<close> and \<open>url.replace(/^https?:\/\//i, "")\<close>\<close>

definition url_protocol :: "string \<Rightarrow> string" where
  "url_protocol u =
     (let sch = takeWhile is_letter u
      in if sch \<noteq> [] \<and> startsWith (dropWhile is_letter u) ''://'' then sch @ ''://'' else [])"

definition urlWithoutProtocol :: "string \<Rightarrow> string" where
  "urlWithoutProtocol u =
     (if startsWith (map lower_char u) ''https://'' then drop 8 u
      else if startsWith (map lower_char u) ''http://'' then drop 7 u
      else u)"

definition urlWithCreds :: "credentials \<Rightarrow> string \<Rightarrow> string" where
  "urlWithCreds a u =
     url_protocol u @ encodeURIComponent (username a) @ '':'' @ encodeURIComponent (password a)
       @ ''@'' @ urlWithoutProtocol u"

text \<open>
  What the document engine answers to a session: \<open>goto_r n u\<close> is the outcome of the
  session's \<open>n\<close>-th navigation when it goes to \<open>u\<close> (\<open>None\<close>: loaded), and
  \<open>url_parses u\<close> tells whether \<open>new URL(u)\<close> succeeds.
\<close>

record navigator =
  goto_r :: "nat \<Rightarrow> string \<Rightarrow> error option"
  url_parses :: "string \<Rightarrow> bool"

text \<open>
  The second retry of \<open>downloadGitbook\<close>, entered with the current \<open>url\<close>: with
  credentials it navigates to the URL that embeds them; any failure inside, and the lack
  of credentials, throw the first error \<open>err\<close>.
\<close>

definition credentials_retry ::
  "navigator \<Rightarrow> credentials option \<Rightarrow> error \<Rightarrow> string \<Rightarrow> error + string" where
  "credentials_retry nav auth err u =
     (case auth of
        None \<Rightarrow> Inl err
      | Some a \<Rightarrow>
          if has_creds auth then
            (if \<not> url_parses nav u then Inl err
             else (case goto_r nav 2 (urlWithCreds a u) of
                     None \<Rightarrow> Inr (urlWithCreds a u)
                   | Some err3 \<Rightarrow> Inl err))
          else Inl err)"

text \<open>
  The navigation of \<open>downloadGitbook\<close>: \<open>Inr\<close> the URL used from then on, \<open>Inl\<close> the
  error thrown to the caller.
\<close>

definition root_navigation ::
  "navigator \<Rightarrow> credentials option \<Rightarrow> string \<Rightarrow> error + string" where
  "root_navigation nav auth u =
     (case goto_r nav 0 u of
        None \<Rightarrow> Inr u
      | Some err \<Rightarrow>
          if isProtocolOrAuthError (message err) \<and> is_http_url u then
            (case goto_r nav 1 (altUrl u) of
               None \<Rightarrow> credentials_retry nav auth err (altUrl u)
             | Some err2 \<Rightarrow>
                 if \<not> has_creds auth then Inl err
                 else credentials_retry nav auth err u)
          else Inl err)"

text \<open>
  The navigation of \<open>processItem\<close>: one protocol swap and no credentials retry.
  \<open>Inl\<close> is the error whose message is logged before the page is given up.
\<close>

definition page_navigation :: "navigator \<Rightarrow> string \<Rightarrow> error + string" where
  "page_navigation nav pageUrl =
     (case goto_r nav 0 pageUrl of
        None \<Rightarrow> Inr pageUrl
      | Some err \<Rightarrow>
          if isProtocolError (message err) \<and> is_http_url pageUrl then
            (case goto_r nav 1 (altUrl pageUrl) of
               None \<Rightarrow> Inr (altUrl pageUrl)
             | Some err2 \<Rightarrow> Inl err)
          else Inl err)"

section \<open>The index file\<close>

text \<open>\<open>s.replace(/^\//, "")\<close>\<close>

definition strip_leading_slash :: "string \<Rightarrow> string" where
  "strip_leading_slash s = (if startsWith s ''/'' then drop 1 s else s)"

text \<open>The heading of the index, two CJK characters, as UTF-8.\<close>

definition toc_heading :: string where
  "toc_heading = [CHR 0xE7, CHR 0x9B, CHR 0xAE, CHR 0xE5, CHR 0xBD, CHR 0x95]"

definition index_link :: "toc_item \<Rightarrow> string" where
  "index_link item = strip_leading_slash (url item) @ ''.md''"

definition index_line :: "toc_item \<Rightarrow> string" where
  "index_line item =
     concat (replicate (level item - 1) ''  '') @ ''- ['' @ title item @ '']('' @ index_link item
       @ '')'' @ [CHR 0x0A]"

definition indexContent :: "string \<Rightarrow> toc_item list \<Rightarrow> string" where
  "indexContent ttl toc =
     ''# '' @ ttl @ [CHR 0x0A, CHR 0x0A] @ ''## '' @ toc_heading @ [CHR 0x0A, CHR 0x0A]
       @ concat (map index_line toc)"

section \<open>Effects\<close>

text \<open>
  What a run does to the outside, in order: \<open>Started i\<close> marks the call
  \<open>processItem(i)\<close>, \<open>NewPage i\<close> and \<open>ClosePage i\<close> the opening and the closing of
  the session of page \<open>i\<close>, the \<open>Log\<close> events the \<open>console.error\<close> calls,
  \<open>MkDir\<close> and \<open>WriteFile\<close> the directories ensured and the files written.
\<close>

datatype event =
    Started nat
  | NewPage nat
  | ClosePage nat
  | LogNavFailed string error
  | LogImagesFailed error
  | LogWriteFailed string error
  | MkDir string
  | WriteFile string string

section \<open>The table separator repair\<close>

text \<open>Regular expressions that are only tested against a whole line.\<close>

datatype rx = Eps | Chars "char list" | Seq rx rx | Alt rx rx | Star rx

fun nullable :: "rx \<Rightarrow> bool" where
  "nullable Eps = True"
| "nullable (Chars cs) = False"
| "nullable (Seq r s) = (nullable r \<and> nullable s)"
| "nullable (Alt r s) = (nullable r \<or> nullable s)"
| "nullable (Star r) = True"

fun deriv :: "char \<Rightarrow> rx \<Rightarrow> rx" where
  "deriv c Eps = Chars []"
| "deriv c (Chars cs) = (if c \<in> set cs then Eps else Chars [])"
| "deriv c (Seq r s) =
     (if nullable r then Alt (Seq (deriv c r) s) (deriv c s) else Seq (deriv c r) s)"
| "deriv c (Alt r s) = Alt (deriv c r) (deriv c s)"
| "deriv c (Star r) = Seq (deriv c r) (Star r)"

definition rx_test :: "rx \<Rightarrow> string \<Rightarrow> bool" where
  "rx_test r s = nullable (foldl (\<lambda>r c. deriv c r) r s)"

text \<open>\<open>/^\s*\|?\s*:?-{3,}\s*(\|\s*:?-{3,}\s*)*\|?\s*$/\<close>\<close>

definition separator_rx :: rx where
  "separator_rx =
     (let ws = Star (Chars [CHR '' '', CHR 0x09, CHR 0x0A, CHR 0x0B, CHR 0x0C, CHR 0x0D]);
          pipe = Chars ''|'';
          dash = Chars ''-'';
          cell = Seq (Alt Eps (Chars '':'')) (Seq dash (Seq dash (Seq dash (Star dash))))
      in Seq ws (Seq (Alt Eps pipe) (Seq ws (Seq cell (Seq ws
           (Seq (Star (Seq pipe (Seq ws (Seq cell ws)))) (Seq (Alt Eps pipe) ws)))))))"

definition count_char :: "char \<Rightarrow> string \<Rightarrow> nat" where
  "count_char c s = length (filter (\<lambda>d. d = c) s)"

definition separator_line :: "nat \<Rightarrow> string" where
  "separator_line cols = ''|'' @ join ''|'' (replicate cols '' --- '') @ ''|''"

text \<open>The loop of \<open>normalizeTables\<close> over the lines.\<close>

fun normalize_lines :: "string list \<Rightarrow> string list" where
  "normalize_lines [] = []"
| "normalize_lines [l] = [l]"
| "normalize_lines (l # n # rest) =
     (l # (if CHR ''|'' \<in> set l \<and> CHR ''|'' \<in> set n \<and> \<not> rx_test separator_rx n
           then (if 0 < count_char (CHR ''|'') l then [separator_line (count_char (CHR ''|'') l)]
                 else [])
           else []))
     @ normalize_lines (n # rest)"

definition normalizeTables :: "string \<Rightarrow> string" where
  "normalizeTables markdown = join [CHR 0x0A] (normalize_lines (split_on (CHR 0x0A) markdown))"

section \<open>The image localizer\<close>

text \<open>
  A dot of a regular expression matches no line terminator: line feed, carriage return,
  and the separators U+2028 and U+2029, which a text carries as the bytes
  \<open>E2 80 A8\<close> and \<open>E2 80 A9\<close>. Whether a text starts with one, and whether one
  occurs in it:
\<close>

definition line_terminator_at :: "string \<Rightarrow> bool" where
  "line_terminator_at s =
     (take 1 s = [CHR 0x0A] \<or> take 1 s = [CHR 0x0D]
      \<or> take 3 s = [CHR 0xE2, CHR 0x80, CHR 0xA8] \<or> take 3 s = [CHR 0xE2, CHR 0x80, CHR 0xA9])"

fun has_line_terminator :: "string \<Rightarrow> bool" where
  "has_line_terminator [] = False"
| "has_line_terminator (c # cs) = (line_terminator_at (c # cs) \<or> has_line_terminator cs)"

text \<open>
  The white space of \<open>\s\<close>: the ASCII white space, and U+00A0, U+1680, U+2000 to
  U+200A, U+2028, U+2029, U+202F, U+205F, U+3000 and U+FEFF as their UTF-8 bytes.
  \<open>space_width s\<close> is the number of bytes of the white space character \<open>s\<close> starts
  with, 0 when it starts with none; \<open>skip_spaces\<close> is the greedy \<open>\s*\<close>.
\<close>

definition space_width :: "string \<Rightarrow> nat" where
  "space_width s =
     (if s \<noteq> [] \<and> is_space (hd s) then 1
      else if take 2 s = [CHR 0xC2, CHR 0xA0] then 2
      else if take 3 s \<in> set [[CHR 0xE1, CHR 0x9A, CHR 0x80], [CHR 0xE2, CHR 0x80, CHR 0x80],
                  [CHR 0xE2, CHR 0x80, CHR 0x81], [CHR 0xE2, CHR 0x80, CHR 0x82],
                  [CHR 0xE2, CHR 0x80, CHR 0x83], [CHR 0xE2, CHR 0x80, CHR 0x84],
                  [CHR 0xE2, CHR 0x80, CHR 0x85], [CHR 0xE2, CHR 0x80, CHR 0x86],
                  [CHR 0xE2, CHR 0x80, CHR 0x87], [CHR 0xE2, CHR 0x80, CHR 0x88],
                  [CHR 0xE2, CHR 0x80, CHR 0x89], [CHR 0xE2, CHR 0x80, CHR 0x8A],
                  [CHR 0xE2, CHR 0x80, CHR 0xA8], [CHR 0xE2, CHR 0x80, CHR 0xA9],
                  [CHR 0xE2, CHR 0x80, CHR 0xAF], [CHR 0xE2, CHR 0x81, CHR 0x9F],
                  [CHR 0xE3, CHR 0x80, CHR 0x80], [CHR 0xEF, CHR 0xBB, CHR 0xBF]] then 3
      else 0)"

lemma space_width_drop: "0 < space_width s \<Longrightarrow> length s - space_width s < length s"
  by (cases s) (auto simp: space_width_def split: if_splits)

function skip_spaces :: "string \<Rightarrow> string" where
  "skip_spaces s = (if space_width s = 0 then s else skip_spaces (drop (space_width s) s))"
  by pat_completeness auto
termination
  by (relation "measure length") (auto dest: space_width_drop)

declare skip_spaces.simps [simp del]

definition strip_prefix :: "string \<Rightarrow> string \<Rightarrow> string option" where
  "strip_prefix p s = (if startsWith s p then Some (drop (length p) s) else None)"

text \<open>
  The lazy \<open>(.*?)\<close> followed by the rest of a pattern: the rest \<open>k\<close> is tried first, and
  only when it fails is one more character taken.
\<close>

fun lazy_dots :: "(string \<Rightarrow> 'a option) \<Rightarrow> string \<Rightarrow> string \<Rightarrow> (string \<times> 'a) option" where
  "lazy_dots k acc [] = (case k [] of None \<Rightarrow> None | Some r \<Rightarrow> Some (rev acc, r))"
| "lazy_dots k acc (c # cs) =
     (case k (c # cs) of
        Some r \<Rightarrow> Some (rev acc, r)
      | None \<Rightarrow> if line_terminator_at (c # cs) then None else lazy_dots k (c # acc) cs)"

text \<open>
  \<open>/!\[(.*?)\]\((.*?)\)/\<close> at the start of a string: the alternative text, the
  source, and what follows the match.
\<close>

definition img_at :: "string \<Rightarrow> (string \<times> string \<times> string) option" where
  "img_at s =
     (case strip_prefix ''!['' s of
        None \<Rightarrow> None
      | Some s1 \<Rightarrow>
          lazy_dots (\<lambda>s2. case strip_prefix '']('' s2 of
                             None \<Rightarrow> None
                           | Some s3 \<Rightarrow> lazy_dots (strip_prefix '')'') [] s3) [] s1)"

lemma lazy_dots_shorter:
  assumes "\<And>s r. k s = Some r \<Longrightarrow> m r \<le> length s"
    and "lazy_dots k acc s = Some (a, r)"
  shows "m r \<le> length s"
  using assms(2)
proof (induction s arbitrary: acc)
  case Nil
  then show ?case
    using assms(1) [of "[]" r] by (auto split: option.splits)
next
  case (Cons c cs)
  show ?case
  proof (cases "k (c # cs)")
    case None
    with Cons.prems have "lazy_dots k (c # acc) cs = Some (a, r)"
      by (auto split: if_splits)
    from Cons.IH [OF this] show ?thesis by simp
  next
    case (Some r')
    with Cons.prems have "r' = r" by simp
    with Some assms(1) [of "c # cs" r] show ?thesis by simp
  qed
qed

lemma strip_prefix_Some: "strip_prefix p s = Some r \<longleftrightarrow> s = p @ r"
proof
  assume "strip_prefix p s = Some r"
  then have t: "take (length p) s = p" and r: "r = drop (length p) s"
    by (auto simp: strip_prefix_def startsWith_def split: if_splits)
  have "s = take (length p) s @ drop (length p) s" by simp
  with t r show "s = p @ r" by simp
next
  assume "s = p @ r"
  then show "strip_prefix p s = Some r"
    by (simp add: strip_prefix_def startsWith_def)
qed

lemma strip_prefix_length:
  "strip_prefix p s = Some r \<Longrightarrow> length r + length p = length s"
  by (simp add: strip_prefix_Some)

lemma img_at_shorter:
  assumes "img_at s = Some (alt, src, rest)"
  shows "length rest < length s"
proof -
  from assms obtain s1 where s1: "strip_prefix ''!['' s = Some s1"
    and l: "lazy_dots (\<lambda>s2. case strip_prefix '']('' s2 of
                             None \<Rightarrow> None
                           | Some s3 \<Rightarrow> lazy_dots (strip_prefix '')'') [] s3) [] s1
            = Some (alt, (src, rest))"
    by (auto simp: img_at_def split: option.splits)
  have inner: "\<And>s2 r. (case strip_prefix '']('' s2 of
                             None \<Rightarrow> None
                           | Some s3 \<Rightarrow> lazy_dots (strip_prefix '')'') [] s3) = Some r
                 \<Longrightarrow> length (snd r) \<le> length s2"
  proof -
    fix s2 and r :: "string \<times> string"
    assume a: "(case strip_prefix '']('' s2 of
                  None \<Rightarrow> None
                | Some s3 \<Rightarrow> lazy_dots (strip_prefix '')'') [] s3) = Some r"
    then obtain s3 where s3: "strip_prefix '']('' s2 = Some s3"
      and l3: "lazy_dots (strip_prefix '')'') [] s3 = Some (fst r, snd r)"
      by (auto split: option.splits)
    have "length (snd r) \<le> length s3"
      by (rule lazy_dots_shorter [where m = length, OF _ l3])
         (use strip_prefix_length in fastforce)
    with strip_prefix_length [OF s3] show "length (snd r) \<le> length s2" by simp
  qed
  have "length (snd (src, rest)) \<le> length s1"
    by (rule lazy_dots_shorter [where m = "\<lambda>r. length (snd r)", OF inner l])
  with strip_prefix_length [OF s1] show ?thesis by simp
qed

text \<open>The \<open>exec\<close> loop of the global pattern: every match, left to right.\<close>

function img_matches :: "string \<Rightarrow> (string \<times> string) list" where
  "img_matches [] = []"
| "img_matches (c # cs) =
     (case img_at (c # cs) of
        None \<Rightarrow> img_matches cs
      | Some (alt, src, rest) \<Rightarrow> (alt, src) # img_matches rest)"
  by pat_completeness auto
termination
  by (relation "measure length") (auto dest: img_at_shorter)

text \<open>
  \<open>(\s+".*?")?\)\<close>: the optional quoted title, then the closing parenthesis. The
  result is the text of the group (empty when the group takes no part in the match) and
  what follows the match.
\<close>

definition title_and_close :: "string \<Rightarrow> (string \<times> string) option" where
  "title_and_close s =
     (case (if space_width s = 0 then None
            else (case strip_prefix [CHR 0x22] (skip_spaces s) of
                    None \<Rightarrow> None
                  | Some r1 \<Rightarrow> lazy_dots (strip_prefix [CHR 0x22, CHR '')'']) [] r1)) of
        Some (t, rest) \<Rightarrow> Some (take (length s - Suc (length rest)) s, rest)
      | None \<Rightarrow> (case strip_prefix '')'' s of None \<Rightarrow> None | Some rest \<Rightarrow> Some ([], rest)))"

text \<open>
  Modelled from the spec: \<open>escapeRegExp\<close>, of the \<open>utils\<close> module, is not among the
  sources; the spec has the rewrite pass match the literal source, and so the source is
  matched character by character here. The pattern of the rewrite pass,
  \<open>!\[(.*?)\]\(SRC(\s+".*?")?\)\<close>, at the start of a string: the alternative text, the
  text of the title group, and what follows the match.
\<close>

definition ref_at :: "string \<Rightarrow> string \<Rightarrow> (string \<times> string \<times> string) option" where
  "ref_at src s =
     (case strip_prefix ''!['' s of
        None \<Rightarrow> None
      | Some s1 \<Rightarrow>
          lazy_dots (\<lambda>s2. case strip_prefix ('']('' @ src) s2 of
                             None \<Rightarrow> None
                           | Some s3 \<Rightarrow> title_and_close s3) [] s1)"

lemma skip_spaces_shorter: "length (skip_spaces s) \<le> length s"
proof (induction s rule: skip_spaces.induct)
  case (1 s)
  show ?case
  proof (cases "space_width s = 0")
    case True
    then show ?thesis by (simp add: skip_spaces.simps)
  next
    case False
    with 1 have "length (skip_spaces (drop (space_width s) s)) \<le> length (drop (space_width s) s)"
      by simp
    with False show ?thesis
      by (simp add: skip_spaces.simps [of s])
  qed
qed

lemma title_and_close_shorter:
  assumes "title_and_close s = Some (g, r)"
  shows "length r \<le> length s"
proof (cases "strip_prefix '')'' s = Some r")
  case True
  from strip_prefix_length [OF this] show ?thesis by simp
next
  case False
  with assms obtain r1 t where r1: "strip_prefix [CHR 0x22] (skip_spaces s) = Some r1"
    and l: "lazy_dots (strip_prefix [CHR 0x22, CHR '')'']) [] r1 = Some (t, r)"
    by (auto simp: title_and_close_def split: option.splits if_splits)
  have "length r \<le> length r1"
    by (rule lazy_dots_shorter [where m = length, OF _ l])
       (use strip_prefix_length in fastforce)
  moreover have "length r1 \<le> length (skip_spaces s)"
    using strip_prefix_length [OF r1] by simp
  moreover have "length (skip_spaces s) \<le> length s"
    by (rule skip_spaces_shorter)
  ultimately show ?thesis by simp
qed

lemma ref_at_shorter:
  assumes "ref_at src s = Some (alt, g, rest)"
  shows "length rest < length s"
proof -
  from assms obtain s1 where s1: "strip_prefix ''!['' s = Some s1"
    and l: "lazy_dots (\<lambda>s2. case strip_prefix ('']('' @ src) s2 of
                             None \<Rightarrow> None
                           | Some s3 \<Rightarrow> title_and_close s3) [] s1 = Some (alt, (g, rest))"
    by (auto simp: ref_at_def split: option.splits)
  have inner: "\<And>s2 r. (case strip_prefix ('']('' @ src) s2 of
                             None \<Rightarrow> None
                           | Some s3 \<Rightarrow> title_and_close s3) = Some r
                 \<Longrightarrow> length (snd r) \<le> length s2"
  proof -
    fix s2 and r :: "string \<times> string"
    assume "(case strip_prefix ('']('' @ src) s2 of
               None \<Rightarrow> None
             | Some s3 \<Rightarrow> title_and_close s3) = Some r"
    then obtain s3 where s3: "strip_prefix ('']('' @ src) s2 = Some s3"
      and t: "title_and_close s3 = Some (fst r, snd r)"
      by (auto split: option.splits)
    from strip_prefix_length [OF s3] title_and_close_shorter [OF t]
    show "length (snd r) \<le> length s2" by simp
  qed
  have "length (snd (g, rest)) \<le> length s1"
    by (rule lazy_dots_shorter [where m = "\<lambda>r. length (snd r)", OF inner l])
  with strip_prefix_length [OF s1] show ?thesis by simp
qed

text \<open>
  The second argument of \<open>replace\<close> is a replacement pattern, and the local path is
  pasted into it: a \<open>$\<close> of the path is read as a pattern too. \<open>expand\<close> is the
  substitution of the language in a replacement pattern: \<open>$$\<close> is a dollar sign,
  \<open>$&\<close> the matched text \<open>m\<close>, \<open>$`\<close> the text \<open>b\<close> before the match, \<open>$'\<close> the text
  \<open>a\<close> after it, \<open>$n\<close> and \<open>$nn\<close> the text of a group of \<open>caps\<close> (two digits when
  they number a group, else one digit when it does), and any other \<open>$\<close> stands for
  itself. A group that took no part in the match is the empty text.
\<close>

definition is_digit :: "char \<Rightarrow> bool" where
  "is_digit c = (48 \<le> (of_char c :: nat) \<and> (of_char c :: nat) \<le> 57)"

definition digit_of :: "char \<Rightarrow> nat" where
  "digit_of c = of_char c - 48"

fun expand :: "string \<Rightarrow> string \<Rightarrow> string \<Rightarrow> string list \<Rightarrow> string \<Rightarrow> string" where
  "expand m b a caps [] = []"
| "expand m b a caps [c] = [c]"
| "expand m b a caps (c # d # ds) =
     (if c \<noteq> CHR ''$'' then c # expand m b a caps (d # ds)
      else if d = CHR ''$'' then CHR ''$'' # expand m b a caps ds
      else if d = CHR ''&'' then m @ expand m b a caps ds
      else if d = CHR 0x60 then b @ expand m b a caps ds
      else if d = CHR 0x27 then a @ expand m b a caps ds
      else if is_digit d \<and> ds \<noteq> [] \<and> is_digit (hd ds)
              \<and> 1 \<le> 10 * digit_of d + digit_of (hd ds)
              \<and> 10 * digit_of d + digit_of (hd ds) \<le> length caps
           then caps ! (10 * digit_of d + digit_of (hd ds) - 1) @ expand m b a caps (tl ds)
      else if is_digit d \<and> 1 \<le> digit_of d \<and> digit_of d \<le> length caps
           then caps ! (digit_of d - 1) @ expand m b a caps ds
      else CHR ''$'' # expand m b a caps (d # ds))"

text \<open>
  The global \<open>replace\<close> of the rewrite pass with the pattern \<open>![$1](localPath)\<close>;
  \<open>seen\<close> is the text to the left of the place the search has reached.
\<close>

function replace_refs :: "string \<Rightarrow> string \<Rightarrow> string \<Rightarrow> string \<Rightarrow> string" where
  "replace_refs src localPath seen [] = []"
| "replace_refs src localPath seen (c # cs) =
     (case ref_at src (c # cs) of
        None \<Rightarrow> c # replace_refs src localPath (seen @ [c]) cs
      | Some (alt, grp, rest) \<Rightarrow>
          expand (take (length (c # cs) - length rest) (c # cs)) seen rest [alt, grp]
            (''![$1]('' @ localPath @ '')'')
          @ replace_refs src localPath
              (seen @ take (length (c # cs) - length rest) (c # cs)) rest)"
  by pat_completeness auto
termination
  by (relation "measure (\<lambda>(src, localPath, seen, s). length s)") (auto dest: ref_at_shorter)


text \<open>A number as JavaScript prints it in a template string.\<close>

fun digits :: "nat \<Rightarrow> string" where
  "digits n =
     (if n < 10 then [char_of (48 + n)] else digits (n div 10) @ [char_of (48 + n mod 10)])"

declare digits.simps [simp del]

text \<open>
  What the outside answers to the image localizer on one page. The occurrences that
  are not data URIs are numbered from 0 in the order of the loop. \<open>img_ext src\<close> is
  \<open>urlObj && path.extname(urlObj.pathname)\<close> for that source (empty when falsy),
  \<open>clock k\<close> and \<open>random1000 k\<close> are \<open>Date.now()\<close> and
  \<open>Math.floor(Math.random() * 1000)\<close> when the \<open>k\<close>-th name is made, \<open>fetch_r k\<close> is
  the outcome of the \<open>k\<close>-th \<open>page.evaluate\<close> (a data URL, \<open>null\<close>, or a rejection),
  \<open>buffer_from b\<close> the bytes of \<open>Buffer.from(b, "base64")\<close>, \<open>img_mkdir_r\<close> and
  \<open>img_write_r\<close> the outcomes of \<open>ensureDirectory\<close> and \<open>fs.writeFile\<close> on a path.
\<close>

record image_world =
  img_ext :: "string \<Rightarrow> string"
  clock :: "nat \<Rightarrow> nat"
  random1000 :: "nat \<Rightarrow> nat"
  fetch_r :: "nat \<Rightarrow> error + string option"
  buffer_from :: "string \<Rightarrow> string"
  img_mkdir_r :: "string \<Rightarrow> error option"
  img_write_r :: "string \<Rightarrow> error option"

definition imgFileName :: "image_world \<Rightarrow> nat \<Rightarrow> string \<Rightarrow> string" where
  "imgFileName iw k src =
     ''image_'' @ digits (clock iw k) @ ''_'' @ digits (random1000 iw k)
       @ (if img_ext iw src = [] then ''.png'' else img_ext iw src)"

text \<open>\<open>path.join("images", path.dirname(relativePagePath), imgFileName).replace(/\\/g, "/")\<close>\<close>

definition relativeImgPath :: "image_world \<Rightarrow> string \<Rightarrow> nat \<Rightarrow> string \<Rightarrow> string" where
  "relativeImgPath iw pageUrl k src =
     map (\<lambda>c. if c = CHR 0x5C then CHR ''/'' else c)
       (path_join [''images'', dirname (strip_leading_slash pageUrl), imgFileName iw k src])"

text \<open>\<open>imageMap.set(key, value)\<close>: an existing key keeps its place.\<close>

fun map_set :: "'k \<Rightarrow> 'v \<Rightarrow> ('k \<times> 'v) list \<Rightarrow> ('k \<times> 'v) list" where
  "map_set k v [] = [(k, v)]"
| "map_set k v ((k', v') # m) = (if k' = k then (k, v) # m else (k', v') # map_set k v m)"

text \<open>\<open>const mapEntry = imageMap.get(src); if (mapEntry) mapEntry.success = true\<close>\<close>

fun mark_success :: "string \<Rightarrow> (string \<times> string \<times> bool) list \<Rightarrow> (string \<times> string \<times> bool) list" where
  "mark_success k [] = []"
| "mark_success k ((k', lp, ok) # m) =
     (if k' = k then (k', lp, True) # m else (k', lp, ok) # mark_success k m)"

text \<open>\<open>base64Data.split(",")[1]\<close>, empty when there is none.\<close>

definition base64Content :: "string \<Rightarrow> string" where
  "base64Content d = (case split_on (CHR '','') d of a # b # rest \<Rightarrow> b | _ \<Rightarrow> [])"

text \<open>
  One download and its \<open>then\<close> callback: the file written, whether the entry of the
  source is marked, and the rejection when there is one.
\<close>

definition download :: "image_world \<Rightarrow> string \<Rightarrow> nat \<Rightarrow> event list \<times> bool \<times> error option" where
  "download iw imgPath k =
     (case fetch_r iw k of
        Inl e \<Rightarrow> ([], False, Some e)
      | Inr None \<Rightarrow> ([], False, None)
      | Inr (Some d) \<Rightarrow>
          if d = [] \<or> base64Content d = [] then ([], False, None)
          else (case img_write_r iw imgPath of
                  Some e \<Rightarrow> ([], False, Some e)
                | None \<Rightarrow> ([WriteFile imgPath (buffer_from iw (base64Content d))], True, None)))"

text \<open>The sources of the occurrences the loop does not skip.\<close>

definition image_occurrences :: "string \<Rightarrow> string list" where
  "image_occurrences markdown =
     filter (\<lambda>src. \<not> startsWith src ''data:'') (map snd (img_matches markdown))"

text \<open>
  \<open>processImages\<close>. The loop fills \<open>imageMap\<close> before any download settles. The
  downloads run side by side and the code fixes no order among their writes; they are
  listed here in the order of their occurrences, and the first rejection among them is
  the one \<open>Promise.all\<close> passes on.
\<close>

definition processImages ::
  "image_world \<Rightarrow> string \<Rightarrow> string \<Rightarrow> string \<Rightarrow> event list \<times> (error + string)" where
  "processImages iw markdown imagesDir pageUrl =
     (let pageImagesDir = path_join [imagesDir, dirname (strip_leading_slash pageUrl)]
      in case img_mkdir_r iw pageImagesDir of
           Some e \<Rightarrow> ([], Inl e)
         | None \<Rightarrow>
             let occs = enumerate 0 (image_occurrences markdown);
                 imageMap = foldl (\<lambda>m (k, src). map_set src (relativeImgPath iw pageUrl k src, False) m)
                              [] occs;
                 settled = map (\<lambda>(k, src).
                              (src, download iw (path_join [pageImagesDir, imgFileName iw k src]) k)) occs;
                 evs = MkDir pageImagesDir # concat (map (\<lambda>(src, ev, ok, err). ev) settled)
             in case List.map_filter (\<lambda>(src, ev, ok, err). err) settled of
                  e # es \<Rightarrow> (evs, Inl e)
                | [] \<Rightarrow>
                    (evs,
                     Inr (foldl (\<lambda>md (src, localPath, success).
                                   if success then replace_refs src localPath [] md else md)
                            markdown
                            (foldl (\<lambda>m (src, ev, ok, err). if ok then mark_success src m else m)
                               imageMap settled))))"

section \<open>The page pipeline\<close>

text \<open>
  What the outside answers while one page is processed: \<open>pageUrl_r\<close> is
  \<open>new URL(item.url, baseUrlObj).toString()\<close>, \<open>newPage_r\<close> the outcome of
  \<open>browser.newPage()\<close>, \<open>nav\<close> the navigations of the session, \<open>extract_r\<close> the outcome
  of \<open>extractPageContent(page)\<close>, \<open>turndown_r\<close> that of \<open>turndownService.turndown\<close> on
  a content, \<open>images\<close> the answers to the image localizer, \<open>ensureDirectory_r\<close> and
  \<open>writeFile_r\<close> the outcomes of the two helpers on a path, \<open>close_r\<close> that of
  \<open>page.close()\<close>. An \<open>error\<close> is a rejection.
\<close>

record page_world =
  pageUrl_r :: "error + string"
  newPage_r :: "error option"
  nav :: navigator
  extract_r :: "error + string"
  turndown_r :: "string \<Rightarrow> error + string"
  images :: image_world
  ensureDirectory_r :: "string \<Rightarrow> error option"
  writeFile_r :: "string \<Rightarrow> error option"
  close_r :: "error option"

text \<open>
  The options of a run, with the host name of the base URL and the answers of the
  outside for the page at each index of the table of contents.
\<close>

record options =
  all_pages :: bool
  outputDir :: string
  downloadImages :: bool
  auth :: "credentials option"
  concurrency :: nat
  hostname :: string
  world :: "nat \<Rightarrow> page_world"

text \<open>
  A call of an \<open>async\<close> function is modelled by the events it caused and the error it
  rejected with, \<open>None\<close> when it resolved.
\<close>

type_synonym settled = "event list \<times> error option"

text \<open>\<open>await page.close()\<close> as the last step of a path.\<close>

definition close_page :: "page_world \<Rightarrow> nat \<Rightarrow> event list \<Rightarrow> settled" where
  "close_page w index tr =
     (case close_r w of
        None \<Rightarrow> (tr @ [ClosePage index], None)
      | Some e \<Rightarrow> (tr, Some e))"

text \<open>The name and the directory of the Markdown file of a page.\<close>

definition fileName_of :: "string \<Rightarrow> toc_item \<Rightarrow> string" where
  "fileName_of host item =
     (if strip_leading_slash (url item) = [] then host @ ''.md''
      else basename (strip_leading_slash (url item)) @ ''.md'')"

definition fileDir_of :: "string \<Rightarrow> toc_item \<Rightarrow> string" where
  "fileDir_of outDir item = path_join [outDir, dirname (strip_leading_slash (url item))]"

text \<open>The end of \<open>processItem\<close>: the directory, the file, the session.\<close>

definition persist :: "options \<Rightarrow> toc_item list \<Rightarrow> nat \<Rightarrow> string \<Rightarrow> event list \<Rightarrow> settled" where
  "persist opts toc index markdown tr =
     (let w = world opts index;
          fileDir = fileDir_of (outputDir opts) (toc ! index);
          fileName = fileName_of (hostname opts) (toc ! index)
      in case ensureDirectory_r w fileDir of
           Some e \<Rightarrow> (tr, Some e)
         | None \<Rightarrow>
             close_page w index
               (tr @ [MkDir fileDir]
                  @ (case writeFile_r w (path_join [fileDir, fileName]) of
                       None \<Rightarrow> [WriteFile (path_join [fileDir, fileName]) markdown]
                     | Some e \<Rightarrow> [LogWriteFailed fileName e])))"

text \<open>The image step of \<open>processItem\<close>, with its \<open>try\<close> and \<open>catch\<close>.\<close>

definition localize_images :: "options \<Rightarrow> toc_item list \<Rightarrow> nat \<Rightarrow> string \<Rightarrow> event list \<times> string" where
  "localize_images opts toc index markdown =
     (if downloadImages opts then
        (case processImages (images (world opts index)) markdown
                (path_join [outputDir opts, ''images'']) (url (toc ! index)) of
           (evs, Inr md) \<Rightarrow> (evs, md)
         | (evs, Inl e) \<Rightarrow> (evs @ [LogImagesFailed e], markdown))
      else ([], markdown))"

text \<open>\<open>processItem\<close> from the extraction of the content on.\<close>

definition after_navigation :: "options \<Rightarrow> toc_item list \<Rightarrow> nat \<Rightarrow> event list \<Rightarrow> settled" where
  "after_navigation opts toc index tr =
     (let w = world opts index
      in case extract_r w of
           Inl e \<Rightarrow> (tr, Some e)
         | Inr content \<Rightarrow>
             (case turndown_r w content of
                Inl e \<Rightarrow> (tr, Some e)
              | Inr md0 \<Rightarrow>
                  (case localize_images opts toc index md0 of
                     (evs, md1) \<Rightarrow>
                       if trim (normalizeTables md1) = [] then close_page w index (tr @ evs)
                       else persist opts toc index (normalizeTables md1) (tr @ evs))))"

text \<open>
  \<open>processItem(index)\<close>. The call of \<open>page.authenticate\<close> and the wait for \<open>main\<close> swallow
  their failures and leave no trace.
\<close>

definition processItem :: "options \<Rightarrow> toc_item list \<Rightarrow> nat \<Rightarrow> settled" where
  "processItem opts toc index =
     (let w = world opts index
      in case pageUrl_r w of
           Inl e \<Rightarrow> ([Started index], Some e)
         | Inr pageUrl \<Rightarrow>
             (case newPage_r w of
                Some e \<Rightarrow> ([Started index], Some e)
              | None \<Rightarrow>
                  (case page_navigation (nav w) pageUrl of
                     Inl err \<Rightarrow>
                       close_page w index [Started index, NewPage index, LogNavFailed pageUrl err]
                   | Inr u \<Rightarrow> after_navigation opts toc index [Started index, NewPage index])))"

section \<open>The worker pool\<close>

text \<open>
  One worker: \<open>while (idx < total) { await processItem(idx); idx += workers; }\<close>. A
  rejection of \<open>processItem\<close> leaves the loop and rejects the worker. The result is
  \<open>None\<close> when the loop does not end.
\<close>

partial_function (option) worker ::
  "options \<Rightarrow> toc_item list \<Rightarrow> nat \<Rightarrow> nat \<Rightarrow> event list \<Rightarrow> settled option" where
  "worker opts toc workers idx tr =
     (if idx < length toc then
        (case processItem opts toc idx of
           (evs, Some e) \<Rightarrow> Some (tr @ evs, Some e)
         | (evs, None) \<Rightarrow> worker opts toc workers (idx + workers) (tr @ evs))
      else Some (tr, None))"

declare worker.simps [code]

text \<open>
  The pool of \<open>processPages\<close>: the workers interleave at their \<open>await\<close>s, and each one's
  own sequence of effects is fixed by the answers of the outside, so the pool is the list
  of the workers' results, worker 0 first.
\<close>

definition worker_pool :: "options \<Rightarrow> toc_item list \<Rightarrow> settled option list" where
  "worker_pool opts toc =
     map (\<lambda>w. worker opts toc (min (concurrency opts) (length toc)) w [])
       [0 ..< min (concurrency opts) (length toc)]"

text \<open>The indices a settled worker called \<open>processItem\<close> on, in order.\<close>

fun started :: "event list \<Rightarrow> nat list" where
  "started [] = []"
| "started (Started i # evs) = i # started evs"
| "started (ev # evs) = started evs"

definition processed_by :: "settled option \<Rightarrow> nat list" where
  "processed_by r = (case r of None \<Rightarrow> [] | Some (evs, e) \<Rightarrow> started evs)"

text \<open>
  The stripe of a worker that starts at \<open>idx\<close>: the indices \<open>idx\<close>, \<open>idx + workers\<close>,
  \<open>idx + 2 * workers\<close>, ... below \<open>tot\<close>.
\<close>

function stripe :: "nat \<Rightarrow> nat \<Rightarrow> nat \<Rightarrow> nat list" where
  "stripe workers tot idx =
     (if idx < tot \<and> 0 < workers then idx # stripe workers tot (idx + workers) else [])"
  by pat_completeness auto
termination
  by (relation "measure (\<lambda>(workers, tot, idx). tot - idx)") auto

declare stripe.simps [simp del]

section \<open>After the root page is loaded\<close>

text \<open>
  The root page after the navigation: its document, its title, the path of its URL and
  the answers of the outside to the root session.
\<close>

record site =
  document :: node
  doc_title :: string
  pathname :: string
  root_world :: page_world

text \<open>The single-page branch of \<open>downloadGitbook\<close>: nothing in it is caught.\<close>

definition single_page :: "options \<Rightarrow> site \<Rightarrow> settled" where
  "single_page opts st =
     (let w = root_world st;
          imagesDir = path_join [outputDir opts, ''images''];
          fileName = (if basename (pathname st) = [] then ''index'' else basename (pathname st));
          target = path_join [outputDir opts, fileName @ ''.md'']
      in case extract_r w of
           Inl e \<Rightarrow> ([], Some e)
         | Inr content \<Rightarrow>
             (case turndown_r w content of
                Inl e \<Rightarrow> ([], Some e)
              | Inr md0 \<Rightarrow>
                  (case (if downloadImages opts then
                           (case ensureDirectory_r w imagesDir of
                              Some e \<Rightarrow> ([], Inl e)
                            | None \<Rightarrow>
                                (case processImages (images w) md0 imagesDir (pathname st) of
                                   (evs, r) \<Rightarrow> (MkDir imagesDir # evs, r)))
                         else ([], Inr md0)) of
                     (evs, Inl e) \<Rightarrow> (evs, Some e)
                   | (evs, Inr markdown) \<Rightarrow>
                       (case writeFile_r w target of
                          Some e \<Rightarrow> (evs, Some e)
                        | None \<Rightarrow> (evs @ [WriteFile target markdown], None)))))"

definition createIndexFile :: "page_world \<Rightarrow> string \<Rightarrow> string \<Rightarrow> toc_item list \<Rightarrow> settled" where
  "createIndexFile w outDir ttl toc =
     (case writeFile_r w (path_join [outDir, ''README.md'']) of
        Some e \<Rightarrow> ([], Some e)
      | None \<Rightarrow> ([WriteFile (path_join [outDir, ''README.md'']) (indexContent ttl toc)], None))"

text \<open>
  \<open>processPages\<close>: the image directory first, then the pool. \<open>Inl\<close> is a rejection
  before any worker exists.
\<close>

definition processPages :: "options \<Rightarrow> page_world \<Rightarrow> toc_item list \<Rightarrow> event list \<times> (error + settled option list)" where
  "processPages opts w toc =
     (if downloadImages opts then
        (case ensureDirectory_r w (path_join [outputDir opts, ''images'']) of
           Some e \<Rightarrow> ([], Inl e)
         | None \<Rightarrow> ([MkDir (path_join [outputDir opts, ''images''])], Inr (worker_pool opts toc)))
      else ([], Inr (worker_pool opts toc)))"

text \<open>
  The two branches of \<open>downloadGitbook\<close> once the root page is loaded and its title
  read.
\<close>

datatype run =
    SinglePage settled
  | IndexFailed settled
  | WholeSite "event list" "error + settled option list"

definition after_load :: "options \<Rightarrow> site \<Rightarrow> run" where
  "after_load opts st =
     (if (pathname st \<noteq> ''/'' \<and> pathname st \<noteq> []) \<and> \<not> all_pages opts then
        SinglePage (single_page opts st)
      else
        (case createIndexFile (root_world st) (outputDir opts) (doc_title st)
                (extractTableOfContents (document st)) of
           (evs, Some e) \<Rightarrow> IndexFailed (evs, Some e)
         | (evs, None) \<Rightarrow>
             (case processPages opts (root_world st) (extractTableOfContents (document st)) of
                (evs', r) \<Rightarrow> WholeSite (evs @ evs') r)))"

section \<open>The table rule\<close>

text \<open>
  \<open>normalizeCellText\<close>: runs of line feeds, with a carriage return before them, become
  one space; pipes are escaped; the ends are trimmed. The flag of \<open>collapse_newlines\<close>
  tells that the characters just read were line feeds of one run.
\<close>

fun collapse_newlines :: "bool \<Rightarrow> string \<Rightarrow> string" where
  "collapse_newlines inrun [] = []"
| "collapse_newlines inrun [c] =
     (if c = CHR 0x0A then (if inrun then [] else '' '') else [c])"
| "collapse_newlines inrun (c # d # cs) =
     (if c = CHR 0x0A then (if inrun then [] else '' '') @ collapse_newlines True (d # cs)
      else if c = CHR 0x0D \<and> d = CHR 0x0A then '' '' @ collapse_newlines True cs
      else c # collapse_newlines False (d # cs))"

definition escape_pipes :: "string \<Rightarrow> string" where
  "escape_pipes s = concat (map (\<lambda>c. if c = CHR ''|'' then [CHR 0x5C, CHR ''|''] else [c]) s)"

definition normalizeCellText :: "string \<Rightarrow> string" where
  "normalizeCellText text = trim (escape_pipes (collapse_newlines False text))"

definition sel_tag :: "string \<Rightarrow> node \<Rightarrow> bool" where
  "sel_tag t n = (tagName n = t)"

definition sel_cell :: "node \<Rightarrow> bool" where
  "sel_cell n = (tagName n = ''TH'' \<or> tagName n = ''TD'')"

text \<open>\<open>node.querySelectorAll("tr")\<close>, \<open>r.querySelectorAll("th, td")\<close>, \<open>r.querySelector("th")\<close>\<close>

definition rows_of :: "node \<Rightarrow> node list" where
  "rows_of tbl = map snd (querySelectorAll (sel_tag ''TR'') tbl)"

definition cells_of :: "node \<Rightarrow> node list" where
  "cells_of r = map snd (querySelectorAll sel_cell r)"

definition has_th :: "node \<Rightarrow> bool" where
  "has_th r = (querySelectorAll (sel_tag ''TH'') r \<noteq> [])"

text \<open>
  The place of \<open>headerRow\<close> among the rows: the first row with a header cell, else the
  first row. The test \<open>headerRow === rows[0]\<close> compares places, so it is the test that
  this index is 0.
\<close>

definition header_index :: "node list \<Rightarrow> nat" where
  "header_index rows =
     (if filter has_th rows = [] then 0 else length (takeWhile (\<lambda>r. \<not> has_th r) rows))"

definition row_line :: "string list \<Rightarrow> string" where
  "row_line texts = ''| '' @ join '' | '' texts @ '' |''"

definition body_texts :: "nat \<Rightarrow> node \<Rightarrow> string list" where
  "body_texts n r =
     map (\<lambda>idx. normalizeCellText (if idx < length (cells_of r) then textContent (cells_of r ! idx)
                                     else []))
       [0 ..< n]"

text \<open>
  The replacement of the \<open>domTable\<close> rule. Nothing in its \<open>try\<close> block can throw on a
  document tree, so the \<open>catch\<close> branch is left out.
\<close>

definition domTable :: "node \<Rightarrow> string" where
  "domTable tbl =
     (let rows = rows_of tbl
      in if rows = [] then []
         else
           let headerRow = rows ! header_index rows;
               headers = map (\<lambda>cell. normalizeCellText (textContent cell)) (cells_of headerRow);
               headerLine = row_line headers;
               sepLine = row_line (map (\<lambda>h. ''---'') headers);
               startIndex = (if header_index rows = 0 \<and> has_th headerRow then 1
                             else if header_index rows = 0 then 1 else 0);
               bodyLines = map (\<lambda>r. row_line (body_texts (length headers) r)) (drop startIndex rows)
           in join [CHR 0x0A] (headerLine # sepLine # bodyLines) @ [CHR 0x0A, CHR 0x0A])"

text \<open>
  The pipes of a line that no backslash stands before, and the fields they delimit: one
  less than their number.
\<close>

fun unescaped_pipes :: "bool \<Rightarrow> string \<Rightarrow> nat" where
  "unescaped_pipes esc [] = 0"
| "unescaped_pipes esc (c # cs) =
     (if c = CHR ''|'' \<and> \<not> esc then 1 else 0) + unescaped_pipes (c = CHR 0x5C) cs"

definition field_count :: "string \<Rightarrow> nat" where
  "field_count l = unescaped_pipes False l - 1"

text \<open>A table whose header cells stand in its second row.\<close>

definition late_header_table :: node where
  "late_header_table =
     Element ''TABLE'' []
       [Element ''TBODY'' []
          [Element ''TR'' [] [Element ''TD'' [] [TextNode ''a'']],
           Element ''TR'' [] [Element ''TH'' [] [TextNode ''H'']]]]"

text \<open>A table with a header row, a short row and a long row.\<close>

definition ragged_table :: node where
  "ragged_table =
     Element ''TABLE'' []
       [Element ''TR'' [] [Element ''TH'' [] [TextNode ''A''], Element ''TH'' [] [TextNode ''B|C'']],
        Element ''TR'' [] [Element ''TD'' [] [TextNode ''1'']],
        Element ''TR'' []
          [Element ''TD'' [] [TextNode ''x''], Element ''TD'' [] [TextNode ''y''],
           Element ''TD'' [] [TextNode ''z'']]]"

section \<open>Sample runs\<close>

text \<open>An image world in which nothing fails and every fetch answers \<open>null\<close>.\<close>

definition quiet_images :: image_world where
  "quiet_images =
     \<lparr> img_ext = (\<lambda>src. []), clock = (\<lambda>k. 0), random1000 = (\<lambda>k. 0),
       fetch_r = (\<lambda>k. Inr None), buffer_from = (\<lambda>b. []), img_mkdir_r = (\<lambda>p. None), img_write_r = (\<lambda>p. None) \<rparr>"

text \<open>A page at \<open>u\<close> on which every step succeeds and whose content converts to \<open>md\<close>.\<close>

definition good_page :: "string \<Rightarrow> string \<Rightarrow> page_world" where
  "good_page u md =
     \<lparr> pageUrl_r = Inr u, newPage_r = None,
       nav = \<lparr> goto_r = (\<lambda>n v. None), url_parses = (\<lambda>v. True) \<rparr>,
       extract_r = Inr ''<h1>t</h1>'', turndown_r = (\<lambda>c. Inr md), images = quiet_images,
       ensureDirectory_r = (\<lambda>p. None), writeFile_r = (\<lambda>p. None), close_r = None \<rparr>"

definition two_pages :: "toc_item list" where
  "two_pages =
     [\<lparr> title = ''Intro'', url = ''/intro'', level = 2 \<rparr>,
      \<lparr> title = ''Setup'', url = ''/guide/setup'', level = 3 \<rparr>]"

definition three_pages :: "toc_item list" where
  "three_pages = two_pages @ [\<lparr> title = ''Usage'', url = ''/guide/usage'', level = 3 \<rparr>]"

text \<open>
  A run with one worker over two pages; the extraction of the first page rejects, as
  \<open>page.evaluate\<close> does on a document without a body.
\<close>

definition broken_first :: options where
  "broken_first =
     \<lparr> all_pages = True, outputDir = ''out'', downloadImages = False, auth = None,
       concurrency = 1, hostname = ''docs.example.com'',
       world = (\<lambda>i. if i = 0
                      then (good_page ''https://docs.example.com/intro'' ''# Intro'')
                             \<lparr> extract_r := Inl (Error ''Cannot read properties of null'') \<rparr>
                      else good_page ''https://docs.example.com/guide/setup'' ''# Setup'') \<rparr>"

text \<open>The same run with two good pages, and with two workers.\<close>

definition both_good :: options where
  "both_good =
     \<lparr> all_pages = True, outputDir = ''out'', downloadImages = False, auth = None,
       concurrency = 2, hostname = ''docs.example.com'',
       world = (\<lambda>i. if i = 0 then good_page ''https://docs.example.com/intro'' ''# Intro''
                      else good_page ''https://docs.example.com/guide/setup'' ''# Setup'') \<rparr>"

text \<open>A root page without a table of contents, at the root path of its site.\<close>

definition bare_site :: site where
  "bare_site =
     \<lparr> document = Element ''BODY'' [] [Element ''MAIN'' [] [TextNode ''Hello'']],
       doc_title = ''Docs'', pathname = ''/'',
       root_world = good_page ''https://docs.example.com/'' ''Hello'' \<rparr>"

text \<open>A page at a path whose content converts to white space only.\<close>

definition blank_site :: site where
  "blank_site =
     \<lparr> document = Element ''BODY'' [] [],
       doc_title = ''Empty'', pathname = ''/guide/empty'',
       root_world = good_page ''https://docs.example.com/guide/empty'' [CHR '' '', CHR 0x0A] \<rparr>"

definition single_mode :: options where
  "single_mode = both_good \<lparr> all_pages := False \<rparr>"

text \<open>The page at that path when its content converts to the empty text.\<close>

definition empty_site :: site where
  "empty_site =
     blank_site \<lparr> root_world := good_page ''https://docs.example.com/guide/empty'' [] \<rparr>"

definition empty_entry :: options where
  "empty_entry =
     both_good \<lparr> world := (\<lambda>i. good_page ''https://docs.example.com/guide/empty'' []) \<rparr>"

text \<open>The same blank page as the only entry of a table of contents.\<close>

definition blank_entry :: options where
  "blank_entry =
     both_good \<lparr> world := (\<lambda>i. good_page ''https://docs.example.com/guide/empty''
                                   [CHR '' '', CHR 0x0A]) \<rparr>"

text \<open>
  A page with the same picture twice; both downloads succeed, at the same clock value
  and with two random draws. The base64 text \<open>AAAA\<close> stands for three zero bytes.
\<close>

definition twice_world :: image_world where
  "twice_world =
     \<lparr> img_ext = (\<lambda>src. ''.png''), clock = (\<lambda>k. 17),
       random1000 = (\<lambda>k. if k = 0 then 7 else 42),
       fetch_r = (\<lambda>k. Inr (Some ''data:image/png;base64,AAAA'')),
       buffer_from = (\<lambda>b. if b = ''AAAA'' then [CHR 0x00, CHR 0x00, CHR 0x00] else []),
       img_mkdir_r = (\<lambda>p. None), img_write_r = (\<lambda>p. None) \<rparr>"


text \<open>The same page under a path with a \<open>$\<close> in it.\<close>

definition dollar_page :: string where
  "dollar_page = ''/plans/$100/intro''"

definition twice_markdown :: string where
  "twice_markdown = ''![a](pic.png) and ![b](pic.png)''"

text \<open>
  A certificate error first, a refused connection on the swapped protocol, and a 401 on
  the URL with credentials: the error thrown is the certificate error.
\<close>

definition failing_navigator :: navigator where
  "failing_navigator =
     \<lparr> goto_r = (\<lambda>n v. if n = 0 then Some (Error ''net::ERR_CERT_AUTHORITY_INVALID'')
                         else if n = 1 then Some (Error ''net::ERR_CONNECTION_REFUSED'')
                         else Some (Error ''401'')),
       url_parses = (\<lambda>v. True) \<rparr>"

section \<open>Levels of the table of contents\<close>

lemma level_loop_count:
  "level_loop lv anc = lv + length (filter (\<lambda>p. tagName p = ''LI'') anc)"
  by (induction anc arbitrary: lv) auto

text \<open>
  C9. For every link kept by the table-of-contents resolver, the level is one more than
  the number of list-item elements among the link's ancestors below the container, so
  it is never below 1: a link under two list-item ancestors (list, list item, list,
  list item, link) has level 3, and a link with no list-item ancestor has level 1.
\<close>

theorem toc_level_counts_list_items:
  assumes "toc_entry (anc, link) = Some it"
  shows "level it = 1 + length (filter (\<lambda>p. tagName p = ''LI'') anc)
   \<and> 1 \<le> level it
   \<and> (length (filter (\<lambda>p. tagName p = ''LI'') anc) = 2 \<longrightarrow> level it = 3)
   \<and> (filter (\<lambda>p. tagName p = ''LI'') anc = [] \<longrightarrow> level it = 1)"
proof -
  from assms have "level it = getElementLevel anc"
    by (auto simp: toc_entry_def Let_def split: if_splits)
  then show ?thesis
    by (simp add: getElementLevel_def level_loop_count)
qed

theorem toc_level_counts_list_items_witness:
  "toc_entry ([Element ''LI'' [] [], Element ''UL'' [] [], Element ''LI'' [] []],
              Element ''A'' [(''href'', ''guide/setup'')] [TextNode ''Setup''])
     = Some \<lparr> title = ''Setup'', url = ''/guide/setup'', level = 3 \<rparr>
   \<and> level \<lparr> title = ''Setup'', url = ''/guide/setup'', level = 3 \<rparr> = 3
   \<and> map level (extractTableOfContents nested_summary) = [2, 3]
   \<and> map level (extractTableOfContents flat_toc) = [1]"
proof -
  have e: "toc_entry ([Element ''LI'' [] [], Element ''UL'' [] [], Element ''LI'' [] []],
              Element ''A'' [(''href'', ''guide/setup'')] [TextNode ''Setup''])
     = Some \<lparr> title = ''Setup'', url = ''/guide/setup'', level = 3 \<rparr>"
    by code_simp
  have n: "map level (extractTableOfContents nested_summary) = [2, 3]"
    by code_simp
  have f: "map level (extractTableOfContents flat_toc) = [1]"
    by code_simp
  from toc_level_counts_list_items [OF e] e n f show ?thesis
    by simp
qed

section \<open>Navigation failures\<close>

lemma isProtocolError_classified:
  "isProtocolError m \<Longrightarrow> isProtocolOrAuthError m"
  by (auto simp: isProtocolError_def isProtocolOrAuthError_def)

text \<open>
  C6. When the first navigation fails with \<open>err\<close> and every retry that applies fails
  as well (the protocol swap for a classified error on an http(s) URL, then the URL with
  embedded credentials when credentials are supplied), the navigation of
  \<open>downloadGitbook\<close> throws \<open>err\<close> itself to its caller, whatever the retries failed
  with. The navigation of \<open>processItem\<close>, which makes the protocol swap only, hands the
  same \<open>err\<close> to the code around it, which logs it and gives the page up.
\<close>

theorem navigation_reports_first_error:
  assumes first: "goto_r nv 0 u = Some err"
    and swap: "isProtocolOrAuthError (message err) \<and> is_http_url u
               \<longrightarrow> goto_r nv 1 (altUrl u) \<noteq> None"
    and creds: "\<forall>a. au = Some a \<longrightarrow> goto_r nv 2 (urlWithCreds a u) \<noteq> None"
  shows "root_navigation nv au u = Inl err
     \<and> page_navigation nv u = Inl err
     \<and> (\<forall>opts toc i.
           pageUrl_r (world opts i) = Inr u \<and> newPage_r (world opts i) = None
           \<and> nav (world opts i) = nv
           \<longrightarrow> processItem opts toc i
               = close_page (world opts i) i [Started i, NewPage i, LogNavFailed u err])"
proof -
  have root: "root_navigation nv au u = Inl err"
    using first swap creds
    by (auto simp: root_navigation_def credentials_retry_def split: option.splits)
  have page: "page_navigation nv u = Inl err"
    using first swap isProtocolError_classified [of "message err"]
    by (auto simp: page_navigation_def split: option.splits)
  from root page show ?thesis
    by (simp add: processItem_def Let_def)
qed

theorem navigation_reports_first_error_witness:
  "root_navigation failing_navigator (Some \<lparr> username = ''u'', password = ''p'' \<rparr>)
     ''https://docs.example.com/'' = Inl (Error ''net::ERR_CERT_AUTHORITY_INVALID'')
   \<and> page_navigation failing_navigator ''https://docs.example.com/''
     = Inl (Error ''net::ERR_CERT_AUTHORITY_INVALID'')
   \<and> isProtocolOrAuthError ''net::ERR_CERT_AUTHORITY_INVALID''
   \<and> is_http_url ''https://docs.example.com/''"
proof -
  have c: "isProtocolOrAuthError ''net::ERR_CERT_AUTHORITY_INVALID''"
    by code_simp
  have h: "is_http_url ''https://docs.example.com/''"
    by code_simp
  have "root_navigation failing_navigator (Some \<lparr> username = ''u'', password = ''p'' \<rparr>)
          ''https://docs.example.com/'' = Inl (Error ''net::ERR_CERT_AUTHORITY_INVALID'')
        \<and> page_navigation failing_navigator ''https://docs.example.com/''
          = Inl (Error ''net::ERR_CERT_AUTHORITY_INVALID'')"
    using navigation_reports_first_error
            [of failing_navigator "''https://docs.example.com/''"
                "Error ''net::ERR_CERT_AUTHORITY_INVALID''"
                "Some \<lparr> username = ''u'', password = ''p'' \<rparr>"]
    by (simp add: failing_navigator_def)
  with c h show ?thesis by simp
qed

text \<open>
  Outside the case of C6: in \<open>downloadGitbook\<close> a protocol swap that succeeds is
  followed by the credentials step all the same, and without credentials that step
  throws the first error.
\<close>

lemma swap_success_without_credentials_throws:
  assumes "goto_r nv 0 u = Some err"
    and "isProtocolOrAuthError (message err)" "is_http_url u"
    and "goto_r nv 1 (altUrl u) = None"
    and "\<not> has_creds au"
  shows "root_navigation nv au u = Inl err"
  using assms
  by (auto simp: root_navigation_def credentials_retry_def split: option.splits)

section \<open>A root page without a table of contents\<close>

text \<open>
  C8, as the code has it. When the root document has neither container, the resolver
  returns the empty sequence; the caller, on its whole-site branch, then writes an index
  file without entries and starts no worker. It does not turn to the single-page branch,
  and no page is downloaded.
\<close>

theorem no_container_gives_empty_index:
  assumes "tocContainer (document st) = None"
    and "pathname st = ''/'' \<or> pathname st = [] \<or> all_pages opts"
  shows "extractTableOfContents (document st) = []
     \<and> worker_pool opts (extractTableOfContents (document st)) = []
     \<and> after_load opts st =
         (case writeFile_r (root_world st) (path_join [outputDir opts, ''README.md'']) of
            Some e \<Rightarrow> IndexFailed ([], Some e)
          | None \<Rightarrow>
              if downloadImages opts then
                (case ensureDirectory_r (root_world st) (path_join [outputDir opts, ''images'']) of
                   Some e \<Rightarrow>
                     WholeSite [WriteFile (path_join [outputDir opts, ''README.md''])
                                  (indexContent (doc_title st) [])] (Inl e)
                 | None \<Rightarrow>
                     WholeSite [WriteFile (path_join [outputDir opts, ''README.md''])
                                  (indexContent (doc_title st) []),
                                MkDir (path_join [outputDir opts, ''images''])] (Inr []))
              else WholeSite [WriteFile (path_join [outputDir opts, ''README.md''])
                                (indexContent (doc_title st) [])] (Inr []))"
proof -
  from assms(1) have toc: "extractTableOfContents (document st) = []"
    by (simp add: extractTableOfContents_def)
  have pool: "worker_pool opts [] = []"
    by (simp add: worker_pool_def)
  from assms(2) have branch: "\<not> ((pathname st \<noteq> ''/'' \<and> pathname st \<noteq> []) \<and> \<not> all_pages opts)"
    by auto
  show ?thesis
    using branch
    by (simp add: toc pool after_load_def createIndexFile_def processPages_def
             split: option.splits)
qed

theorem no_container_gives_empty_index_witness:
  "tocContainer (document bare_site) = None
   \<and> extractTableOfContents (document bare_site) = []
   \<and> after_load both_good bare_site
     = WholeSite [WriteFile ''out/README.md'' (indexContent ''Docs'' [])] (Inr [])"
proof -
  have c: "tocContainer (document bare_site) = None"
    by code_simp
  have p: "pathname bare_site = ''/'' \<or> pathname bare_site = [] \<or> all_pages both_good"
    by (simp add: bare_site_def)
  have j: "path_join [''out'', ''README.md''] = ''out/README.md''"
    by code_simp
  from no_container_gives_empty_index [OF c p] c j show ?thesis
    by (simp add: both_good_def bare_site_def good_page_def)
qed

text \<open>
  The run on such a root page: the resolver returns nothing, the only file written is
  the index, and the result is not that of the single-page branch.
\<close>

theorem no_container_no_single_page_fallback:
  "extractTableOfContents (document bare_site) = []
   \<and> after_load both_good bare_site
     = WholeSite [WriteFile ''out/README.md'' (indexContent ''Docs'' [])] (Inr [])
   \<and> single_page both_good bare_site = ([WriteFile ''out/index.md'' ''Hello''], None)
   \<and> after_load both_good bare_site \<noteq> SinglePage (single_page both_good bare_site)"
  by code_simp

section \<open>The same picture twice\<close>

lemma no_terminator_suffix: "\<not> has_line_terminator (x @ y) \<Longrightarrow> \<not> has_line_terminator y"
  by (induction x) auto







lemma img_at_no_bang: "CHR ''!'' \<noteq> c \<Longrightarrow> img_at (c # cs) = None"
  by (auto simp: img_at_def strip_prefix_def startsWith_def)

lemma img_matches_plain:
  "CHR ''!'' \<notin> set pre \<Longrightarrow> img_matches (pre @ s) = img_matches s"
  by (induction pre) (simp_all add: img_at_no_bang)

lemma img_matches_Nil: "CHR ''!'' \<notin> set s \<Longrightarrow> img_matches s = []"
  using img_matches_plain [of s "[]"] by simp




lemma ref_at_no_bang: "CHR ''!'' \<noteq> c \<Longrightarrow> ref_at src (c # cs) = None"
  by (auto simp: ref_at_def strip_prefix_def startsWith_def)

















text \<open>
  Under a page path with a \<open>$\<close> the local path is read as a replacement pattern:
  \<open>$10\<close> is the alternative text followed by \<open>0\<close>, and the two references get two
  different texts, neither of them a path that was written.
\<close>

lemma dollar_in_path_is_a_pattern:
  "relativeImgPath twice_world dollar_page 1 ''pic.png'' = ''images/plans/$100/image_17_42.png''
   \<and> processImages twice_world twice_markdown ''out/images'' dollar_page
     = ([MkDir ''out/images/plans/$100'',
         WriteFile ''out/images/plans/$100/image_17_7.png'' [CHR 0x00, CHR 0x00, CHR 0x00],
         WriteFile ''out/images/plans/$100/image_17_42.png'' [CHR 0x00, CHR 0x00, CHR 0x00]],
        Inr ''![a](images/plans/a00/image_17_42.png) and ![b](images/plans/b00/image_17_42.png)'')"
  by code_simp

text \<open>
  A title in the second reference makes it another key of \<open>imageMap\<close>; the pattern of
  the first key matches both references, and both get the path of the first occurrence.
\<close>

lemma titled_reference_gets_first_path:
  "processImages twice_world ''![a](pic.png) and ![b](pic.png \"t\")'' ''out/images'' ''/guide/intro''
     = ([MkDir ''out/images/guide'',
         WriteFile ''out/images/guide/image_17_7.png'' [CHR 0x00, CHR 0x00, CHR 0x00],
         WriteFile ''out/images/guide/image_17_42.png'' [CHR 0x00, CHR 0x00, CHR 0x00]],
        Inr ''![a](images/guide/image_17_7.png) and ![b](images/guide/image_17_7.png)'')"
  by code_simp

section \<open>The worker pool when no call rejects\<close>

lemma started_append: "started (xs @ ys) = started xs @ started ys"
  by (induction xs rule: started.induct) simp_all

lemma started_download: "download iw p k = (ev, ok, err) \<Longrightarrow> started ev = []"
  by (auto simp: download_def split: sum.splits option.splits if_splits)

lemma started_concat_Nil: "(\<And>x. x \<in> set xs \<Longrightarrow> started (f x) = []) \<Longrightarrow> started (concat (map f xs)) = []"
  by (induction xs) (simp_all add: started_append)

lemma started_processImages:
  assumes "processImages iw md d u = (evs, r)"
  shows "started evs = []"
proof -
  have "started (concat (map (\<lambda>(src, ev, ok, err). ev)
          (map (\<lambda>(k, src). (src, download iw (p k src) k)) occs))) = []" for p occs
    by (rule started_concat_Nil) (auto dest: started_download [OF sym])
  with assms show ?thesis
    by (auto simp: processImages_def Let_def split: option.splits list.splits)
qed

lemma started_localize:
  assumes "localize_images opts toc i md = (evs, md')"
  shows "started evs = []"
  using assms
  by (auto simp: localize_images_def started_append
        split: prod.splits sum.splits if_splits dest: started_processImages)

lemma started_processItem: "started (fst (processItem opts toc i)) = [i]"
  by (auto simp: processItem_def after_navigation_def persist_def close_page_def Let_def
        started_append split: sum.splits option.splits prod.splits dest: started_localize)

lemma worker_resolves:
  assumes "0 < workers"
    and "\<forall>i < length toc. snd (processItem opts toc i) = None"
  shows "worker opts toc workers idx tr
         = Some (tr @ concat (map (\<lambda>i. fst (processItem opts toc i))
                                (stripe workers (length toc) idx)), None)"
  using assms
proof (induction workers "length toc" idx arbitrary: tr rule: stripe.induct)
  case (1 workers idx)
  show ?case
  proof (cases "idx < length toc")
    case True
    with "1.prems" obtain evs where p: "processItem opts toc idx = (evs, None)"
      by (metis prod.collapse)
    from True "1.prems" have
      "worker opts toc workers (idx + workers) (tr @ evs)
       = Some ((tr @ evs) @ concat (map (\<lambda>i. fst (processItem opts toc i))
                                (stripe workers (length toc) (idx + workers))), None)"
      by (intro "1.hyps") simp_all
    with True "1.prems"(1) p show ?thesis
      by (subst worker.simps, subst stripe.simps) simp
  next
    case False
    then show ?thesis
      by (subst worker.simps, subst stripe.simps) simp
  qed
qed

lemma stripe_ge: "i \<in> set (stripe workers tot idx) \<Longrightarrow> idx \<le> i"
proof (induction workers tot idx rule: stripe.induct)
  case (1 workers tot idx)
  from "1.prems" have c: "idx < tot \<and> 0 < workers"
    by (subst (asm) stripe.simps) (auto split: if_splits)
  with "1.prems" have "i = idx \<or> i \<in> set (stripe workers tot (idx + workers))"
    by (subst (asm) stripe.simps) simp
  with c "1.IH" show ?case by fastforce
qed

lemma distinct_stripe: "distinct (stripe workers tot idx)"
proof (induction workers tot idx rule: stripe.induct)
  case (1 workers tot idx)
  show ?case
  proof (cases "idx < tot \<and> 0 < workers")
    case True
    then have "idx \<notin> set (stripe workers tot (idx + workers))"
      using stripe_ge [of idx workers tot "idx + workers"] by auto
    with True "1.IH" show ?thesis
      by (subst stripe.simps) simp
  next
    case False
    then show ?thesis by (subst stripe.simps) auto
  qed
qed

lemma mod_step:
  fixes d w :: nat
  assumes "0 < w"
  shows "d mod w = 0 \<longleftrightarrow> d = 0 \<or> (w \<le> d \<and> (d - w) mod w = 0)"
proof (cases "w \<le> d")
  case True
  then show ?thesis
    using assms by (auto simp: le_mod_geq)
next
  case False
  then show ?thesis using assms by auto
qed

lemma set_stripe:
  assumes "0 < workers"
  shows "i \<in> set (stripe workers tot idx)
         \<longleftrightarrow> idx \<le> i \<and> i < tot \<and> (i - idx) mod workers = 0"
  using assms
proof (induction workers tot idx rule: stripe.induct)
  case (1 workers tot idx)
  show ?case
  proof (cases "idx < tot")
    case True
    have "i \<in> set (stripe workers tot idx)
          \<longleftrightarrow> i = idx \<or> i \<in> set (stripe workers tot (idx + workers))"
      using True "1.prems" by (subst stripe.simps) simp
    also have "\<dots> \<longleftrightarrow> i = idx
        \<or> (idx + workers \<le> i \<and> i < tot \<and> (i - (idx + workers)) mod workers = 0)"
      using "1.IH" True "1.prems" by simp
    also have "\<dots> \<longleftrightarrow> idx \<le> i \<and> i < tot \<and> (i - idx) mod workers = 0"
      using mod_step [OF "1.prems", of "i - idx"] True by auto
    finally show ?thesis .
  next
    case False
    then have "stripe workers tot idx = []"
      by (subst stripe.simps) simp
    with False show ?thesis by auto
  qed
qed

lemma stripe_residue:
  assumes "w < workers"
  shows "i \<in> set (stripe workers tot w) \<longleftrightarrow> i < tot \<and> i mod workers = w"
proof -
  from assms have pos: "0 < workers" by simp
  have "(w \<le> i \<and> (i - w) mod workers = 0) \<longleftrightarrow> i mod workers = w"
  proof
    assume a: "w \<le> i \<and> (i - w) mod workers = 0"
    then have "i = (i - w) + w" by simp
    then have "i mod workers = ((i - w) mod workers + w) mod workers"
      by (metis mod_add_left_eq)
    with a assms show "i mod workers = w" by simp
  next
    assume b: "i mod workers = w"
    then have "w \<le> i" by (metis mod_less_eq_dividend)
    moreover have "(i - w) mod workers = 0"
      using b by (metis minus_mod_eq_mult_div mod_mult_self1_is_0)
    ultimately show "w \<le> i \<and> (i - w) mod workers = 0" by simp
  qed
  with set_stripe [OF pos, of i tot w] show ?thesis by auto
qed

text \<open>
  When the configured concurrency is positive and no call of \<open>processItem\<close> rejects,
  the pool has \<open>min concurrency total\<close> workers, worker \<open>w\<close> calls \<open>processItem\<close> on
  exactly the indices of its stripe, once each, and every index lies in the stripe of
  exactly one worker.
\<close>

lemma started_stripe:
  "started (concat (map (\<lambda>i. fst (processItem opts toc i)) xs)) = xs"
  by (induction xs) (simp_all add: started_append started_processItem)

theorem pool_stripes:
  assumes "0 < concurrency opts"
    and "\<forall>i < length toc. snd (processItem opts toc i) = None"
  shows "length (worker_pool opts toc) = min (concurrency opts) (length toc)
     \<and> (\<forall>w < min (concurrency opts) (length toc).
           processed_by (worker_pool opts toc ! w)
             = stripe (min (concurrency opts) (length toc)) (length toc) w
           \<and> distinct (processed_by (worker_pool opts toc ! w)))
     \<and> (\<forall>i < length toc. \<forall>w < min (concurrency opts) (length toc).
           (i \<in> set (processed_by (worker_pool opts toc ! w)))
             = (w = i mod min (concurrency opts) (length toc)))"
proof -
  let ?W = "min (concurrency opts) (length toc)"
  have len: "length (worker_pool opts toc) = ?W"
    by (simp add: worker_pool_def)
  have run: "processed_by (worker_pool opts toc ! w) = stripe ?W (length toc) w" if "w < ?W" for w
  proof -
    from that have "0 < ?W" by (cases toc) (use assms(1) in auto)
    from worker_resolves [OF this assms(2), of w "[]"] that show ?thesis
      by (simp add: worker_pool_def processed_by_def started_stripe)
  qed
  have once: "(i \<in> set (processed_by (worker_pool opts toc ! w))) = (w = i mod ?W)"
    if "i < length toc" "w < ?W" for i w
    using run [OF that(2)] stripe_residue [OF that(2), of i "length toc"] that(1) by auto
  from len run once distinct_stripe show ?thesis
    by simp
qed

text \<open>
  Three pages and two workers: worker 0 takes the indices 0 and 2, worker 1 the index 1,
  and three files are written, each by one worker.
\<close>

lemma three_pages_two_workers:
  "map processed_by (worker_pool both_good three_pages) = [[0, 2], [1]]
   \<and> stripe 2 3 0 = [0, 2] \<and> stripe 2 3 1 = [1]
   \<and> map (\<lambda>r. case r of
                 None \<Rightarrow> []
               | Some (evs, e) \<Rightarrow> filter (\<lambda>ev. case ev of WriteFile p c \<Rightarrow> True | _ \<Rightarrow> False) evs)
        (worker_pool both_good three_pages)
     = [[WriteFile ''out/intro.md'' ''# Intro'', WriteFile ''out/guide/usage.md'' ''# Setup''],
        [WriteFile ''out/guide/setup.md'' ''# Setup'']]"
  by code_simp

text \<open>A call of \<open>processItem\<close> that resolves has opened a session and closed it last.\<close>

lemma resolved_call_closes_session:
  assumes "processItem opts toc i = (evs, None)"
  shows "NewPage i \<in> set evs \<and> last evs = ClosePage i"
  using assms
  by (auto simp: processItem_def after_navigation_def persist_def close_page_def Let_def
        split: sum.splits option.splits prod.splits if_splits)

text \<open>
  Failures of the navigation, of the image step and of the file write never reject
  \<open>processItem\<close>: when the URL, the session, the extraction, the conversion, the
  directories and the closing succeed, the call resolves.
\<close>

lemma guarded_failures_do_not_reject:
  assumes "pageUrl_r (world opts i) = Inr u" "newPage_r (world opts i) = None"
    and "close_r (world opts i) = None"
    and "extract_r (world opts i) = Inr content"
    and "turndown_r (world opts i) content = Inr md0"
    and "\<forall>p. ensureDirectory_r (world opts i) p = None"
  shows "snd (processItem opts toc i) = None"
  using assms
  by (auto simp: processItem_def after_navigation_def persist_def close_page_def Let_def
        split: sum.splits option.splits prod.splits)

section \<open>A rejected page\<close>

text \<open>
  C3. In \<open>processItem\<close> the navigation, the image step, the table repair and the file
  write are guarded, but \<open>browser.newPage\<close>, \<open>extractPageContent\<close>, the conversion and
  \<open>ensureDirectory\<close> are not. With one worker over two pages, a rejection of the
  extraction of the first page is not caught: it rejects \<open>processItem\<close>, leaves the loop
  of the worker and reaches \<open>Promise.all\<close>; the second page is never started.
\<close>

theorem extraction_failure_rejects_pool:
  "worker_pool broken_first two_pages
   = [Some ([Started 0, NewPage 0], Some (Error ''Cannot read properties of null''))]"
  by code_simp

text \<open>
  C2. In the same run the pool has \<open>min 1 2 = 1\<close> worker, whose stripe is the indices 0
  and 1; it calls \<open>processItem\<close> on index 0 only, so index 1 is processed by no worker.
\<close>

theorem rejected_call_ends_stripe:
  "length two_pages = 2
   \<and> min (concurrency broken_first) (length two_pages) = 1
   \<and> map processed_by (worker_pool broken_first two_pages) = [[0]]"
  by code_simp

text \<open>
  C4. In the same run the session of the first page is opened and, on the path of the
  rejected extraction, never closed.
\<close>

theorem extraction_failure_leaves_session_open:
  "processItem broken_first two_pages 0
   = ([Started 0, NewPage 0], Some (Error ''Cannot read properties of null''))"
  by code_simp

section \<open>A page that converts to nothing\<close>

lemma split_on_not_Nil: "split_on sep s \<noteq> []"
  by (induction s) (auto split: list.splits)

lemma join_split_on: "join [sep] (split_on sep s) = s"
proof (induction s)
  case Nil
  then show ?case by simp
next
  case (Cons c cs)
  obtain l ls where sp: "split_on sep cs = l # ls"
    using split_on_not_Nil [of sep cs] by (cases "split_on sep cs") auto
  with Cons show ?case
    by (cases ls) auto
qed

lemma split_on_subset: "l \<in> set (split_on sep s) \<Longrightarrow> set l \<subseteq> set s"
proof (induction s arbitrary: l)
  case Nil
  then show ?case by simp
next
  case (Cons c cs)
  obtain k ks where sp: "split_on sep cs = k # ks"
    using split_on_not_Nil [of sep cs] by (cases "split_on sep cs") auto
  with Cons.prems have "l = [] \<or> l \<in> set (split_on sep cs) \<or> l = c # k"
    by (auto split: if_splits)
  with Cons.IH sp show ?case
    by (fastforce simp: subset_iff)
qed

lemma normalize_lines_plain:
  "(\<And>l. l \<in> set ls \<Longrightarrow> CHR ''|'' \<notin> set l) \<Longrightarrow> normalize_lines ls = ls"
  by (induction ls rule: normalize_lines.induct) simp_all

lemma normalizeTables_plain:
  assumes "CHR ''|'' \<notin> set md"
  shows "normalizeTables md = md"
proof -
  have "normalize_lines (split_on (CHR 0x0A) md) = split_on (CHR 0x0A) md"
    using assms split_on_subset [of _ "CHR 0x0A" md]
    by (intro normalize_lines_plain) blast
  then show ?thesis
    by (simp add: normalizeTables_def join_split_on)
qed

lemma trim_blank: "trim s = [] \<longleftrightarrow> (\<forall>c \<in> set s. is_space c)"
proof
  assume "trim s = []"
  then have all: "\<forall>c \<in> set (dropWhile is_space s). is_space c"
    by (simp add: trim_def dropWhile_eq_Nil_conv)
  have "dropWhile is_space s = []"
  proof (rule ccontr)
    assume ne: "dropWhile is_space s \<noteq> []"
    then have "\<not> is_space (hd (dropWhile is_space s))"
      by (rule hd_dropWhile)
    with all ne show False
      by (metis list.set_sel(1))
  qed
  then show "\<forall>c \<in> set s. is_space c"
    by (simp add: dropWhile_eq_Nil_conv)
next
  assume "\<forall>c \<in> set s. is_space c"
  then have "\<forall>c \<in> set (dropWhile is_space s). is_space c"
    by (meson set_dropWhileD)
  then show "trim s = []"
    by (simp add: trim_def dropWhile_eq_Nil_conv)
qed

lemma processImages_no_images:
  assumes "CHR ''!'' \<notin> set md"
  shows "processImages iw md d u
         = (case img_mkdir_r iw (path_join [d, dirname (strip_leading_slash u)]) of
              Some e \<Rightarrow> ([], Inl e)
            | None \<Rightarrow> ([MkDir (path_join [d, dirname (strip_leading_slash u)])], Inr md))"
  using img_matches_Nil [OF assms]
  by (simp add: processImages_def image_occurrences_def List.map_filter_def split: option.splits)

text \<open>
  In \<open>processItem\<close>, a page whose content converts to white space only is skipped: the
  session is closed, no file is written and nothing is thrown but by \<open>page.close\<close>.
\<close>

theorem blank_page_is_skipped:
  assumes "pageUrl_r (world opts i) = Inr u" "newPage_r (world opts i) = None"
    and "page_navigation (nav (world opts i)) u = Inr u'"
    and "extract_r (world opts i) = Inr content"
    and "turndown_r (world opts i) content = Inr md0"
    and "trim md0 = []"
  shows "\<exists>evs. processItem opts toc i = close_page (world opts i) i ([Started i, NewPage i] @ evs)
           \<and> (\<forall>p c. WriteFile p c \<notin> set evs)"
proof -
  have ns: "\<not> is_space (CHR ''!'')" "\<not> is_space (CHR ''|'')"
    by (simp_all add: is_space_def)
  from assms(6) have sp: "\<forall>c \<in> set md0. is_space c"
    by (simp add: trim_blank)
  have nb: "CHR ''!'' \<notin> set md0"
    using sp ns(1) by blast
  have np: "CHR ''|'' \<notin> set md0"
    using sp ns(2) by blast
  obtain evs md1 where loc: "localize_images opts toc i md0 = (evs, md1)"
    by (cases "localize_images opts toc i md0")
  then have same: "md1 = md0" and nw: "\<forall>p c. WriteFile p c \<notin> set evs"
    by (auto simp: localize_images_def processImages_no_images [OF nb]
          split: if_splits option.splits)
  from np have "normalizeTables md0 = md0"
    by (rule normalizeTables_plain)
  with assms loc same have
    "processItem opts toc i = close_page (world opts i) i ([Started i, NewPage i] @ evs)"
    by (simp add: processItem_def after_navigation_def Let_def)
  with nw show ?thesis by blast
qed

text \<open>
  C7. \<open>processItem\<close> checks the trimmed Markdown and writes nothing for a blank page;
  the single-page branch of \<open>downloadGitbook\<close> has no such check and writes the blank
  Markdown to \<open>empty.md\<close>: so for a Markdown of white space, and so for the empty
  Markdown, for which it writes an empty file.
\<close>

theorem single_page_writes_blank_markdown:
  "trim [CHR '' '', CHR 0x0A] = []
   \<and> processItem blank_entry [\<lparr> title = ''Empty'', url = ''/guide/empty'', level = 2 \<rparr>] 0
     = ([Started 0, NewPage 0, ClosePage 0], None)
   \<and> after_load single_mode blank_site
     = SinglePage ([WriteFile ''out/empty.md'' [CHR '' '', CHR 0x0A]], None)
   \<and> trim [] = []
   \<and> processItem empty_entry [\<lparr> title = ''Empty'', url = ''/guide/empty'', level = 2 \<rparr>] 0
     = ([Started 0, NewPage 0, ClosePage 0], None)
   \<and> after_load single_mode empty_site = SinglePage ([WriteFile ''out/empty.md'' []], None)"
  by code_simp

section \<open>The index link of the root entry\<close>

text \<open>
  C10. For the entry of the site root, \<open>/\<close>, the index links to \<open>.md\<close>, while
  \<open>processItem\<close> names the file after the host: the link does not lead to the file.
\<close>

theorem root_entry_link_differs_from_file:
  "index_link \<lparr> title = ''Home'', url = ''/'', level = 1 \<rparr> = ''.md''
   \<and> path_join [''out'', index_link \<lparr> title = ''Home'', url = ''/'', level = 1 \<rparr>] = ''out/.md''
   \<and> processItem both_good [\<lparr> title = ''Home'', url = ''/'', level = 1 \<rparr>] 0
     = ([Started 0, NewPage 0, MkDir ''out'',
         WriteFile ''out/docs.example.com.md'' ''# Intro'', ClosePage 0], None)"
  by code_simp

text \<open>For the two entries of the sample table of contents the link leads to the file.\<close>

lemma ordinary_entries_link_to_their_files:
  "map (\<lambda>item. path_join [''out'', index_link item]) two_pages
     = [''out/intro.md'', ''out/guide/setup.md'']
   \<and> map (\<lambda>item. path_join [fileDir_of ''out'' item, fileName_of ''docs.example.com'' item]) two_pages
     = [''out/intro.md'', ''out/guide/setup.md'']"
  by code_simp

section \<open>A table whose header is its first row\<close>

lemma unescaped_pipes_append:
  "unescaped_pipes esc (a @ b)
   = unescaped_pipes esc a + unescaped_pipes (if a = [] then esc else last a = CHR 0x5C) b"
  by (induction a arbitrary: esc) auto

lemma unescaped_pipes_escape: "unescaped_pipes esc (escape_pipes x) = 0"
  by (induction x arbitrary: esc) (auto simp: escape_pipes_def)

lemma unescaped_pipes_dropWhile:
  assumes "unescaped_pipes False s = 0"
  shows "unescaped_pipes False (dropWhile is_space s) = 0"
proof -
  have sp: "\<not> is_space (CHR 0x5C)" by (simp add: is_space_def)
  have "takeWhile is_space s \<noteq> [] \<Longrightarrow> last (takeWhile is_space s) \<noteq> CHR 0x5C"
    using sp by (metis last_in_set set_takeWhileD)
  then have flag: "(if takeWhile is_space s = [] then False
                    else last (takeWhile is_space s) = CHR 0x5C) = False"
    by auto
  have "unescaped_pipes False (takeWhile is_space s @ dropWhile is_space s) = 0"
    using assms by simp
  then show ?thesis
    unfolding unescaped_pipes_append flag by simp
qed

lemma unescaped_pipes_trim:
  assumes "unescaped_pipes False s = 0"
  shows "unescaped_pipes False (trim s) = 0"
proof -
  let ?d = "dropWhile is_space s"
  have "?d = rev (dropWhile is_space (rev ?d)) @ rev (takeWhile is_space (rev ?d))"
    by (metis rev_append rev_rev_ident takeWhile_dropWhile_id)
  then have "unescaped_pipes False (rev (dropWhile is_space (rev ?d)) @ rev (takeWhile is_space (rev ?d))) = 0"
    using unescaped_pipes_dropWhile [OF assms] by simp
  then show ?thesis
    unfolding unescaped_pipes_append trim_def by simp
qed

lemma unescaped_pipes_cell: "unescaped_pipes False (normalizeCellText t) = 0"
  by (simp add: normalizeCellText_def unescaped_pipes_trim unescaped_pipes_escape)

lemma unescaped_pipes_joined:
  assumes "texts \<noteq> []" and "\<And>t. t \<in> set texts \<Longrightarrow> unescaped_pipes False t = 0"
  shows "unescaped_pipes False (join '' | '' texts @ '' |'') = length texts"
  using assms
proof (induction "'' | ''" texts rule: join.induct)
  case 1
  then show ?case by simp
next
  case (2 x)
  then show ?case by (simp add: unescaped_pipes_append)
next
  case (3 x y ys)
  have "unescaped_pipes False (join '' | '' (y # ys) @ '' |'') = length (y # ys)"
    using 3 by simp
  moreover have "unescaped_pipes False x = 0" using 3 by simp
  ultimately show ?case
    by (simp add: unescaped_pipes_append)
qed

lemma field_count_row_line:
  assumes "texts \<noteq> []" and "\<And>t. t \<in> set texts \<Longrightarrow> unescaped_pipes False t = 0"
  shows "field_count (row_line texts) = length texts"
  using unescaped_pipes_joined [OF assms]
  by (simp add: field_count_def row_line_def)

lemma collapse_newlines_no_LF: "CHR 0x0A \<notin> set (collapse_newlines inrun t)"
  by (induction inrun t rule: collapse_newlines.induct) auto

lemma set_trim: "set (trim s) \<subseteq> set s"
proof -
  have "set (dropWhile is_space (rev (dropWhile is_space s))) \<subseteq> set (rev (dropWhile is_space s))"
    by (meson set_dropWhileD subsetI)
  also have "\<dots> \<subseteq> set s"
    by (auto dest: set_dropWhileD)
  finally show ?thesis by (simp add: trim_def)
qed

lemma normalizeCellText_no_LF: "CHR 0x0A \<notin> set (normalizeCellText t)"
proof -
  have "CHR 0x0A \<notin> set (escape_pipes (collapse_newlines False t))"
    using collapse_newlines_no_LF [of False t] by (auto simp: escape_pipes_def split: if_splits)
  with set_trim show ?thesis
    unfolding normalizeCellText_def by blast
qed

lemma set_join: "set (join sep xs) \<subseteq> set sep \<union> \<Union> (set ` set xs)"
  by (induction sep xs rule: join.induct) auto

lemma row_line_no_LF:
  assumes "\<And>t. t \<in> set texts \<Longrightarrow> CHR 0x0A \<notin> set t"
  shows "CHR 0x0A \<notin> set (row_line texts)"
proof -
  have "CHR 0x0A \<notin> set (join '' | '' texts)"
    using set_join [of "'' | ''" texts] assms by auto
  then show ?thesis by (simp add: row_line_def)
qed

lemma split_on_line:
  "sep \<notin> set l \<Longrightarrow> split_on sep (l @ sep # rest) = l # split_on sep rest"
proof (induction l)
  case Nil
  then show ?case by simp
next
  case (Cons c cs)
  then show ?case by auto
qed

lemma split_on_joined:
  assumes "ls \<noteq> []" and "\<And>l. l \<in> set ls \<Longrightarrow> sep \<notin> set l"
  shows "split_on sep (join [sep] ls @ [sep, sep]) = ls @ [[], []]"
  using assms
proof (induction "[sep]" ls rule: join.induct)
  case 1
  then show ?case by simp
next
  case (2 x)
  then show ?case
    using split_on_line [of sep x "[sep]"] by simp
next
  case (3 x y ys)
  have "split_on sep (join [sep] (y # ys) @ [sep, sep]) = (y # ys) @ [[], []]"
    using 3 by simp
  then show ?case
    using split_on_line [of sep x "join [sep] (y # ys) @ [sep, sep]"] 3(3) by simp
qed

lemma normalizeCellText_Nil: "normalizeCellText [] = []"
  by (simp add: normalizeCellText_def escape_pipes_def trim_def)

lemma body_texts_aligned:
  "length (body_texts n r) = n
   \<and> (\<forall>idx < n. body_texts n r ! idx
         = (if idx < length (cells_of r) then normalizeCellText (textContent (cells_of r ! idx))
            else []))"
  by (simp add: body_texts_def normalizeCellText_Nil)

text \<open>
  When the header row is the first row of the table (it holds a header cell, or no row
  does) and has \<open>N\<close> cells, at least one, the output of the rule is a header line, a
  separator line and one line for each of the other rows, then an empty line; each of
  these lines has \<open>N\<close> fields, a short row being filled with empty texts and a long one
  cut.
\<close>

theorem table_rule_header_first:
  assumes rows: "rows_of tbl \<noteq> []"
    and first: "header_index (rows_of tbl) = 0"
    and cells: "cells_of (hd (rows_of tbl)) \<noteq> []"
  shows "split_on (CHR 0x0A) (domTable tbl)
         = (row_line (map (\<lambda>cell. normalizeCellText (textContent cell)) (cells_of (hd (rows_of tbl))))
            # row_line (map (\<lambda>cell. ''---'') (cells_of (hd (rows_of tbl))))
            # map (\<lambda>r. row_line (body_texts (length (cells_of (hd (rows_of tbl)))) r))
                (tl (rows_of tbl)))
           @ [[], []]
    \<and> length (row_line (map (\<lambda>cell. normalizeCellText (textContent cell)) (cells_of (hd (rows_of tbl))))
            # row_line (map (\<lambda>cell. ''---'') (cells_of (hd (rows_of tbl))))
            # map (\<lambda>r. row_line (body_texts (length (cells_of (hd (rows_of tbl)))) r))
                (tl (rows_of tbl)))
      = (length (rows_of tbl) - 1) + 2
    \<and> (\<forall>l \<in> set (row_line (map (\<lambda>cell. normalizeCellText (textContent cell)) (cells_of (hd (rows_of tbl))))
            # row_line (map (\<lambda>cell. ''---'') (cells_of (hd (rows_of tbl))))
            # map (\<lambda>r. row_line (body_texts (length (cells_of (hd (rows_of tbl)))) r))
                (tl (rows_of tbl))).
          field_count l = length (cells_of (hd (rows_of tbl))))"
proof -
  let ?rows = "rows_of tbl"
  let ?hc = "cells_of (hd ?rows)"
  let ?headers = "map (\<lambda>cell. normalizeCellText (textContent cell)) ?hc"
  let ?ls = "row_line ?headers # row_line (map (\<lambda>cell. ''---'') ?hc)
             # map (\<lambda>r. row_line (body_texts (length ?hc) r)) (tl ?rows)"
  from rows have hd0: "?rows ! 0 = hd ?rows"
    by (simp add: hd_conv_nth)
  have dom: "domTable tbl = join [CHR 0x0A] ?ls @ [CHR 0x0A, CHR 0x0A]"
    using rows first hd0
    by (simp add: domTable_def Let_def drop_Suc o_def)
  have body_no_LF: "CHR 0x0A \<notin> set t" if "t \<in> set (body_texts n r)" for t n r
    using that normalizeCellText_no_LF by (auto simp: body_texts_def)
  have h_no_LF: "CHR 0x0A \<notin> set (row_line ?headers)"
    by (rule row_line_no_LF) (auto simp: normalizeCellText_no_LF)
  have s_no_LF: "CHR 0x0A \<notin> set (row_line (map (\<lambda>cell. ''---'') ?hc))"
    by (rule row_line_no_LF) auto
  have b_no_LF: "CHR 0x0A \<notin> set (row_line (body_texts n r))" for n r
    by (rule row_line_no_LF) (rule body_no_LF)
  have nl: "CHR 0x0A \<notin> set l" if "l \<in> set ?ls" for l
    using that h_no_LF s_no_LF b_no_LF by auto
  have lines: "split_on (CHR 0x0A) (domTable tbl) = ?ls @ [[], []]"
    unfolding dom by (rule split_on_joined) (use nl in auto)
  have body_pipes: "unescaped_pipes False t = 0" if "t \<in> set (body_texts n r)" for t n r
    using that unescaped_pipes_cell by (auto simp: body_texts_def)
  have body_ne: "body_texts (length ?hc) r \<noteq> []" for r
    using cells by (simp add: body_texts_def)
  have f: "field_count l = length ?hc" if "l \<in> set ?ls" for l
  proof -
    from that consider "l = row_line ?headers" | "l = row_line (map (\<lambda>cell. ''---'') ?hc)"
      | r where "l = row_line (body_texts (length ?hc) r)"
      by auto
    then show ?thesis
    proof cases
      case 1
      have "field_count (row_line ?headers) = length ?headers"
        using cells by (intro field_count_row_line) (auto simp: unescaped_pipes_cell)
      with 1 show ?thesis by simp
    next
      case 2
      have "field_count (row_line (map (\<lambda>cell. ''---'') ?hc)) = length (map (\<lambda>cell. ''---'') ?hc)"
        using cells by (intro field_count_row_line) auto
      with 2 show ?thesis by simp
    next
      case 3
      have "field_count (row_line (body_texts (length ?hc) r)) = length (body_texts (length ?hc) r)"
        using body_ne body_pipes by (intro field_count_row_line) auto
      with 3 show ?thesis by (simp add: body_texts_def)
    qed
  qed
  from lines f show ?thesis by simp
qed

text \<open>A short row is filled, a long row is cut, a pipe in a cell is escaped.\<close>

lemma ragged_table_lines:
  "domTable ragged_table
   = join [CHR 0x0A] [[CHR ''|'', CHR '' '', CHR ''A'', CHR '' '', CHR ''|'', CHR '' '',
                        CHR ''B'', CHR 0x5C, CHR ''|'', CHR ''C'', CHR '' '', CHR ''|''],
                       ''| --- | --- |'', ''| 1 |  |'', ''| x | y |'']
     @ [CHR 0x0A, CHR 0x0A]"
  by code_simp

text \<open>
  The rule alone is meant here: the separator repair that \<open>processItem\<close> runs on the
  whole page afterwards adds a line after every table line that is followed by a row.
\<close>

lemma separator_repair_adds_lines:
  "normalizeTables (join [CHR 0x0A] [''| H |'', ''| --- |'', ''| a |'', ''| b |''])
   = join [CHR 0x0A] [''| H |'', ''| --- |'', ''| --- | --- |'', ''| a |'', ''| --- | --- |'', ''| b |'']"
  by code_simp

section \<open>A table whose header is not its first row\<close>

text \<open>
  C1. When the first row with a header cell is not the first row of the table, the body
  starts at the first row again and runs over all rows, the header row among them: the
  table below has one header cell and one other row, and the rule emits four lines, the
  header row twice.
\<close>

theorem table_rule_repeats_late_header:
  "length (rows_of late_header_table) = 2
   \<and> header_index (rows_of late_header_table) = 1
   \<and> domTable late_header_table
     = join [CHR 0x0A] [''| H |'', ''| --- |'', ''| a |'', ''| H |''] @ [CHR 0x0A, CHR 0x0A]"
  by code_simp

end
